theory Spec2Isabelle
  imports Complex_Main
begin

section \<open>TLVArchive downloader: constants and Python helpers\<close>

text \<open>
  The development follows \<^verbatim>\<open>src/main.py\<close>.  Python strings are \<^typ>\<open>string\<close>,
  Python integers are \<^typ>\<open>int\<close>, and the column lists of the two CSV holder
  classes are kept as the parallel lists the source uses.  The web driver, the
  file system and the persisted status file are explicit arguments or fields of
  an explicit state.
\<close>

definition COMPLETED :: string where "COMPLETED = ''completed''"
definition MISMATCH :: string where "MISMATCH = ''mismatch''"
definition EMPTY :: string where "EMPTY = ''''"
definition NO_RESULTS :: string where "NO_RESULTS = ''no_results''"
definition FILE_PREFIX :: string where "FILE_PREFIX = ''log__''"
definition WAIT_ALL :: bool where "WAIT_ALL = True"
definition PDFBTN :: nat where "PDFBTN = 7"

datatype fault = DownloadFault | NavigationFault | IndexError | ValueError

text \<open>Python's \<^verbatim>\<open>a in b\<close> on strings: \<open>a\<close> occurs in \<open>b\<close> as a contiguous substring.\<close>

fun starts_with :: "string \<Rightarrow> string \<Rightarrow> bool" where
  "starts_with [] s = True"
| "starts_with (c # cs) [] = False"
| "starts_with (c # cs) (d # ds) = (c = d \<and> starts_with cs ds)"

fun str_in :: "string \<Rightarrow> string \<Rightarrow> bool" where
  "str_in a [] = (a = [])"
| "str_in a (c # cs) = (starts_with a (c # cs) \<or> str_in a cs)"

text \<open>Python's \<^verbatim>\<open>str\<close> on an integer: the decimal numeral, with a sign when negative.\<close>

definition digit_char :: "nat \<Rightarrow> char" where
  "digit_char d = ''0123456789'' ! d"

function str_nat :: "nat \<Rightarrow> string" where
  "str_nat n = (if n < 10 then [digit_char n] else str_nat (n div 10) @ [digit_char (n mod 10)])"
  by pat_completeness auto
termination
  by (relation "measure id") auto

declare str_nat.simps [simp del]

definition str :: "int \<Rightarrow> string" where
  "str i = (if i < 0 then CHR ''-'' # str_nat (nat (- i)) else str_nat (nat i))"

text \<open>
  Python list indexing with an integer index: a negative index counts from the
  end, and an index outside the list raises \<^verbatim>\<open>IndexError\<close> (here \<open>None\<close>).
\<close>

definition py_index :: "'a list \<Rightarrow> int \<Rightarrow> nat option" where
  "py_index xs i =
     (let n = int (length xs); k = (if i < 0 then n + i else i)
      in if 0 \<le> k \<and> k < n then Some (nat k) else None)"

definition py_get :: "'a list \<Rightarrow> int \<Rightarrow> 'a option" where
  "py_get xs i = map_option (\<lambda>k. xs ! k) (py_index xs i)"

definition py_set :: "'a list \<Rightarrow> int \<Rightarrow> 'a \<Rightarrow> 'a list option" where
  "py_set xs i v = map_option (\<lambda>k. xs[k := v]) (py_index xs i)"

text \<open>The slice \<^verbatim>\<open>xs[i:]\<close>.\<close>

definition py_slice_from :: "'a list \<Rightarrow> int \<Rightarrow> 'a list" where
  "py_slice_from xs i =
     (if i < 0 then drop (nat (int (length xs) + i)) xs else drop (nat i) xs)"

section \<open>The CSV holders\<close>

text \<open>
  The values a page or row number column holds: \<^verbatim>\<open>create_record\<close> stores the
  integers \<^verbatim>\<open>current_page\<close> and \<^verbatim>\<open>current_row\<close>, \<^verbatim>\<open>read_csv\<close> stores text.
\<close>

datatype pyval = PyStr string | PyInt int

text \<open>
  \<^verbatim>\<open>CsvDocHolder\<close>: one list per column of the document table.  Field \<open>dh_x\<close>
  is the attribute \<open>x\<close> of the class.
\<close>

record CsvDocHolder =
  dh_ktatrova :: "string list"
  dh_ms_gush :: "string list"
  dh_ms_chelka :: "string list"
  dh_multiple_gush_chelka :: "string list"
  dh_address :: "string list"
  dh_tik_id :: "string list"
  dh_page_number :: "pyval list"
  dh_row_number :: "pyval list"
  dh_date :: "string list"
  dh_type :: "string list"
  dh_request :: "string list"
  dh_permit :: "string list"
  dh_size :: "string list"
  dh_document :: "string list"

definition CsvDocHolder_init :: CsvDocHolder where
  "CsvDocHolder_init =
     \<lparr>dh_ktatrova = [], dh_ms_gush = [], dh_ms_chelka = [], dh_multiple_gush_chelka = [],
      dh_address = [], dh_tik_id = [], dh_page_number = [], dh_row_number = [],
      dh_date = [], dh_type = [], dh_request = [], dh_permit = [], dh_size = [],
      dh_document = []\<rparr>"

text \<open>
  \<^verbatim>\<open>CsvTikHolder\<close>, the status ledger of one group: one list per column,
  the key index and the set of claimed case ids.  Field \<open>th_x\<close> is the
  attribute \<open>x\<close> of the class.  The counters are stored as the strings the
  source writes with \<^verbatim>\<open>str\<close>.
\<close>

record CsvTikHolder =
  th_ktatrova :: "string list"
  th_ms_gush :: "string list"
  th_ms_chelka :: "string list"
  th_tik_id :: "string list"
  th_status :: "string list"
  th_no_results :: "string list"
  th_docs_in_csv :: "string list"
  th_docs_in_directory :: "string list"
  th_docs_in_web :: "string list"
  th_docs_in_csv_not_in_dir :: "string list"
  th_docs_in_dir_not_in_csv :: "string list"
  th_key_to_index :: "string \<rightharpoonup> nat"
  th_next_index :: nat
  th_tik_ids_queued :: "string set"

definition CsvTikHolder_init :: CsvTikHolder where
  "CsvTikHolder_init =
     \<lparr>th_ktatrova = [], th_ms_gush = [], th_ms_chelka = [], th_tik_id = [],
      th_status = [], th_no_results = [], th_docs_in_csv = [], th_docs_in_directory = [],
      th_docs_in_web = [], th_docs_in_csv_not_in_dir = [], th_docs_in_dir_not_in_csv = [],
      th_key_to_index = Map.empty, th_next_index = 0, th_tik_ids_queued = {}\<rparr>"

text \<open>
  \<^verbatim>\<open>GushChelka.is_active\<close>, on the holder's set of claimed ids; the whole
  body runs under \<^verbatim>\<open>data_lock\<close>, so it is one step.  It returns the flag and
  the updated holder.
\<close>

definition is_active :: "string \<Rightarrow> CsvTikHolder \<Rightarrow> bool \<times> CsvTikHolder" where
  "is_active tid h =
     (if tid \<notin> th_tik_ids_queued h
      then (False, h\<lparr>th_tik_ids_queued := insert tid (th_tik_ids_queued h)\<rparr>)
      else (True, h))"


text \<open>
  The claim check of \<^verbatim>\<open>download_docs_and_get_data\<close>
  (\<^verbatim>\<open>if self.tik_id and self.is_active(): return\<close>): \<open>True\<close> when the job
  returns at once.  \<^verbatim>\<open>is_active\<close> is not called for an empty id.
\<close>

definition claim_check :: "string \<Rightarrow> CsvTikHolder \<Rightarrow> bool \<times> CsvTikHolder" where
  "claim_check tid h = (if tid \<noteq> [] then is_active tid h else (False, h))"

text \<open>
  The list a \<^verbatim>\<open>create_record\<close> call returns, by column name, and
  \<^verbatim>\<open>CsvDocHolder.add\<close>, which appends one value to every column.
\<close>

record DocRecord =
  dr_ktatrova :: string
  dr_ms_gush :: string
  dr_ms_chelka :: string
  dr_multiple_gush_chelka :: string
  dr_address :: string
  dr_tik_id :: string
  dr_page_number :: pyval
  dr_row_number :: pyval
  dr_date :: string
  dr_type :: string
  dr_request :: string
  dr_permit :: string
  dr_size :: string
  dr_document :: string

definition CsvDocHolder_add :: "CsvDocHolder \<Rightarrow> DocRecord \<Rightarrow> CsvDocHolder" where
  "CsvDocHolder_add d r =
     \<lparr>dh_ktatrova = dh_ktatrova d @ [dr_ktatrova r],
      dh_ms_gush = dh_ms_gush d @ [dr_ms_gush r],
      dh_ms_chelka = dh_ms_chelka d @ [dr_ms_chelka r],
      dh_multiple_gush_chelka = dh_multiple_gush_chelka d @ [dr_multiple_gush_chelka r],
      dh_address = dh_address d @ [dr_address r],
      dh_tik_id = dh_tik_id d @ [dr_tik_id r],
      dh_page_number = dh_page_number d @ [dr_page_number r],
      dh_row_number = dh_row_number d @ [dr_row_number r],
      dh_date = dh_date d @ [dr_date r],
      dh_type = dh_type d @ [dr_type r],
      dh_request = dh_request d @ [dr_request r],
      dh_permit = dh_permit d @ [dr_permit r],
      dh_size = dh_size d @ [dr_size r],
      dh_document = dh_document d @ [dr_document r]\<rparr>"

text \<open>
  The list \<^verbatim>\<open>create_status_record\<close> returns, by column name; the counters are
  integers there and \<^verbatim>\<open>CsvTikHolder.add\<close> stores their \<^verbatim>\<open>str\<close>.
\<close>

record StatusRecord =
  sr_ktatrova :: string
  sr_gush :: string
  sr_chelka :: string
  sr_tik_id :: string
  sr_status :: string
  sr_no_results :: string
  sr_docs_in_csv :: int
  sr_docs_in_directory :: int
  sr_docs_in_web :: int
  sr_docs_in_csv_not_in_dir :: int
  sr_docs_in_dir_not_in_csv :: int

definition create_status_record :: "string \<Rightarrow> string \<Rightarrow> string \<Rightarrow> string \<Rightarrow> string \<Rightarrow> string
    \<Rightarrow> StatusRecord" where
  "create_status_record k g c t st nr =
     \<lparr>sr_ktatrova = k, sr_gush = g, sr_chelka = c, sr_tik_id = t, sr_status = st,
      sr_no_results = nr, sr_docs_in_csv = 0, sr_docs_in_directory = 0, sr_docs_in_web = 0,
      sr_docs_in_csv_not_in_dir = 0, sr_docs_in_dir_not_in_csv = 0\<rparr>"

text \<open>The key \<^verbatim>\<open>f"{ktatrova}_{gush}_{chelka}_{tik_id}"\<close>.\<close>

definition make_key :: "string \<Rightarrow> string \<Rightarrow> string \<Rightarrow> string \<Rightarrow> string" where
  "make_key k g c t = k @ ''_'' @ g @ ''_'' @ c @ ''_'' @ t"

text \<open>
  \<^verbatim>\<open>CsvTikHolder.add_next_key\<close>; \<open>None\<close> is the \<^verbatim>\<open>IndexError\<close> of reading a
  column at \<^verbatim>\<open>next_index\<close> beyond its end.
\<close>

definition add_next_key :: "CsvTikHolder \<Rightarrow> CsvTikHolder option" where
  "add_next_key h =
     (let i = th_next_index h in
      if i < length (th_ktatrova h) \<and> i < length (th_ms_gush h)
         \<and> i < length (th_ms_chelka h) \<and> i < length (th_tik_id h)
      then Some (h\<lparr>th_key_to_index :=
                      (th_key_to_index h)
                        (make_key (th_ktatrova h ! i) (th_ms_gush h ! i)
                                  (th_ms_chelka h ! i) (th_tik_id h ! i) \<mapsto> i),
                    th_next_index := i + 1\<rparr>)
      else None)"

definition CsvTikHolder_add :: "CsvTikHolder \<Rightarrow> StatusRecord \<Rightarrow> CsvTikHolder option" where
  "CsvTikHolder_add h r =
     add_next_key
       (h\<lparr>th_ktatrova := th_ktatrova h @ [sr_ktatrova r],
          th_ms_gush := th_ms_gush h @ [sr_gush r],
          th_ms_chelka := th_ms_chelka h @ [sr_chelka r],
          th_tik_id := th_tik_id h @ [sr_tik_id r],
          th_status := th_status h @ [sr_status r],
          th_no_results := th_no_results h @ [sr_no_results r],
          th_docs_in_csv := th_docs_in_csv h @ [str (sr_docs_in_csv r)],
          th_docs_in_directory := th_docs_in_directory h @ [str (sr_docs_in_directory r)],
          th_docs_in_web := th_docs_in_web h @ [str (sr_docs_in_web r)],
          th_docs_in_csv_not_in_dir :=
            th_docs_in_csv_not_in_dir h @ [str (sr_docs_in_csv_not_in_dir r)],
          th_docs_in_dir_not_in_csv :=
            th_docs_in_dir_not_in_csv h @ [str (sr_docs_in_dir_not_in_csv r)]\<rparr>)"

fun CsvTikHolder_extend :: "CsvTikHolder \<Rightarrow> StatusRecord list \<Rightarrow> CsvTikHolder option" where
  "CsvTikHolder_extend h [] = Some h"
| "CsvTikHolder_extend h (r # rs) =
     (case CsvTikHolder_add h r of None \<Rightarrow> None | Some h' \<Rightarrow> CsvTikHolder_extend h' rs)"

text \<open>
  The rows \<^verbatim>\<open>CsvTikHolder.to_csv\<close> builds: one per entry of the \<^verbatim>\<open>ktatrova\<close>
  column, reading every other column at the same index (\<open>None\<close>: a column is
  shorter and the read raises \<^verbatim>\<open>IndexError\<close>).
\<close>

definition th_row :: "CsvTikHolder \<Rightarrow> nat \<Rightarrow> string list" where
  "th_row h i =
     [th_ktatrova h ! i, th_ms_gush h ! i, th_ms_chelka h ! i, th_tik_id h ! i,
      th_status h ! i, th_no_results h ! i, th_docs_in_csv h ! i,
      th_docs_in_directory h ! i, th_docs_in_web h ! i,
      th_docs_in_csv_not_in_dir h ! i, th_docs_in_dir_not_in_csv h ! i]"

definition columns_cover :: "CsvTikHolder \<Rightarrow> nat \<Rightarrow> bool" where
  "columns_cover h n =
     (n \<le> length (th_ms_gush h) \<and> n \<le> length (th_ms_chelka h)
      \<and> n \<le> length (th_tik_id h) \<and> n \<le> length (th_status h)
      \<and> n \<le> length (th_no_results h) \<and> n \<le> length (th_docs_in_csv h)
      \<and> n \<le> length (th_docs_in_directory h) \<and> n \<le> length (th_docs_in_web h)
      \<and> n \<le> length (th_docs_in_csv_not_in_dir h)
      \<and> n \<le> length (th_docs_in_dir_not_in_csv h))"

definition th_rows :: "CsvTikHolder \<Rightarrow> string list list option" where
  "th_rows h =
     (if columns_cover h (length (th_ktatrova h))
      then Some (map (th_row h) [0..<length (th_ktatrova h)])
      else None)"

text \<open>
  \<^verbatim>\<open>CsvTikHolder.to_csv\<close> on the persisted status file (\<open>None\<close>: no file yet):
  the file is rewritten with the rows, and left alone when there are no rows.
  The outer \<open>None\<close> is the \<^verbatim>\<open>IndexError\<close>.
\<close>

definition CsvTikHolder_to_csv ::
    "CsvTikHolder \<Rightarrow> string list list option \<Rightarrow> string list list option option" where
  "CsvTikHolder_to_csv h file =
     (case th_rows h of
        None \<Rightarrow> None
      | Some records \<Rightarrow> Some (if records \<noteq> [] then Some records else file))"

section \<open>Jobs\<close>

text \<open>
  \<^verbatim>\<open>GushChelka\<close>: a crawl job.  The fields are the attributes of the class that
  carry data; the driver handle, the URL, the log prefix and the paths of the
  status file are left out, and the shared \<^verbatim>\<open>status_csv\<close> and \<^verbatim>\<open>queue\<close>
  objects live in the state beside the job.
\<close>

record GushChelka =
  ktatrova :: string
  gush :: string
  chelka :: string
  status_index :: int
  status_key :: string
  no_results :: string
  tik_id :: string
  tik_ids :: "string list"
  tik_indexes :: "nat list"
  res_csv :: CsvDocHolder
  res_dir :: string
  res_csv_path :: string
  multiple_gush_chelka :: string
  address :: string
  docs_in_web :: int
  docs_in_csv :: int
  docs_in_directory :: int
  current_page :: int
  current_row :: int
  start_idx :: int

definition GushChelka_init :: "string \<Rightarrow> string \<Rightarrow> string \<Rightarrow> GushChelka" where
  "GushChelka_init k g c =
     \<lparr>ktatrova = k, gush = g, chelka = c, status_index = - 1, status_key = [],
      no_results = [], tik_id = [], tik_ids = [], tik_indexes = [],
      res_csv = CsvDocHolder_init, res_dir = [], res_csv_path = [],
      multiple_gush_chelka = [], address = [], docs_in_web = 0, docs_in_csv = 0,
      docs_in_directory = 0, current_page = 0, current_row = 0, start_idx = 0\<rparr>"

definition RESULTS_DIR :: string where "RESULTS_DIR = ''output''"

text \<open>\<^verbatim>\<open>os.path.join\<close> of two components, with the separator \<open>/\<close>.\<close>

definition os_path_join :: "string \<Rightarrow> string \<Rightarrow> string" where
  "os_path_join a b =
     (if starts_with ''/'' b then b
      else if a = [] \<or> last a = CHR ''/'' then a @ b
      else a @ ''/'' @ b)"

text \<open>
  \<^verbatim>\<open>GushChelka.update_fields()\<close> with \<^verbatim>\<open>only_prefix=False\<close>, on the fields kept
  here; with \<^verbatim>\<open>only_prefix=True\<close> the method only rebuilds the log prefix.
\<close>

definition update_fields :: "CsvTikHolder \<Rightarrow> GushChelka \<Rightarrow> GushChelka" where
  "update_fields h j =
     (let j1 = j\<lparr>res_dir := os_path_join (os_path_join RESULTS_DIR (ktatrova j)) (tik_id j)\<rparr>
      in if tik_id j1 \<noteq> []
         then let key = make_key (ktatrova j1) (gush j1) (chelka j1) (tik_id j1);
                  j2 = j1\<lparr>res_csv_path :=
                             os_path_join (res_dir j1)
                               (FILE_PREFIX @ ''TatRova'' @ ktatrova j1 @ ''_'' @ tik_id j1 @ ''.csv''),
                           status_key := key\<rparr>
              in (case th_key_to_index h key of
                    Some i \<Rightarrow> j2\<lparr>status_index := int i\<rparr>
                  | None \<Rightarrow> j2)
         else j1)"

text \<open>\<^verbatim>\<open>GushChelka.create_record\<close>.\<close>

definition create_record ::
    "GushChelka \<Rightarrow> string \<Rightarrow> string \<Rightarrow> string \<Rightarrow> string \<Rightarrow> string \<Rightarrow> string \<Rightarrow> DocRecord" where
  "create_record j date doc_type request permit sz doc_path =
     \<lparr>dr_ktatrova = ktatrova j, dr_ms_gush = gush j, dr_ms_chelka = chelka j,
      dr_multiple_gush_chelka = multiple_gush_chelka j, dr_address = address j,
      dr_tik_id = tik_id j, dr_page_number = PyInt (current_page j),
      dr_row_number = PyInt (current_row j), dr_date = date, dr_type = doc_type,
      dr_request = request, dr_permit = permit, dr_size = sz, dr_document = doc_path\<rparr>"

section \<open>The document source, the file system and the shared state\<close>

text \<open>
  What the web driver shows.  A table row has the texts of its cells and the
  \<^verbatim>\<open>documentid\<close> attribute of the cell at index \<^verbatim>\<open>PDFBTN\<close> (a file name); the
  three flags say whether clicking the cell raises, whether the clicked
  document has reached the directory when \<^verbatim>\<open>wait_for_doc\<close> returns, and whether
  the error page with its back link is displayed after the row.  A page has the
  count \<^verbatim>\<open>get_web_count\<close> reads, the texts \<^verbatim>\<open>get_multiple_gush_chelka\<close> and
  \<^verbatim>\<open>get_address\<close> read and its rows; the pages of a case are a list, and the
  next-page button is there exactly when a page follows.
\<close>

record table_row =
  tds :: "string list"
  documentid :: string
  click_raises :: bool
  materializes :: bool
  back_btn :: bool

record web_page =
  web_count :: int
  page_multiple_gush_chelka :: string
  page_address :: string
  trs :: "table_row list"

definition blank_page :: web_page where
  "blank_page = \<lparr>web_count = 0, page_multiple_gush_chelka = [], page_address = [], trs = []\<rparr>"

record driver_env =
  launch_raises :: bool
  search_tik_ids :: "string \<Rightarrow> string \<Rightarrow> string list"
  search_no_results :: "string \<Rightarrow> string \<Rightarrow> bool"
  tik_no_results :: "string \<Rightarrow> bool"
  site :: "string \<Rightarrow> web_page list"

text \<open>
  The state the jobs of one group share: the status ledger, its persisted file,
  the paths of the files on disk (in listing order) and the job queue.
\<close>

record world =
  status_csv :: CsvTikHolder
  status_file :: "string list list option"
  files :: "string list"
  queue :: "GushChelka list"

datatype outcome = Done GushChelka world | Raised fault GushChelka world

datatype rows_outcome =
  RowsDone GushChelka world | BackBtn GushChelka world | RowsRaised fault GushChelka world

text \<open>
  \<^verbatim>\<open>glob.glob(f"{d}/*.*")\<close>: the files directly in directory \<open>d\<close> whose name
  contains a dot and does not start with one.  The directory part of the
  pattern loses its trailing separators, and the results are the directory
  joined with the names.
\<close>

definition in_dir_star_dot_star :: "string \<Rightarrow> string \<Rightarrow> bool" where
  "in_dir_star_dot_star d p =
     (starts_with (d @ ''/'') p \<and>
      (let name = drop (length d + 1) p
       in CHR ''/'' \<notin> set name \<and> CHR ''.'' \<in> set name \<and> \<not> starts_with ''.'' name))"

definition glob_dir :: "string list \<Rightarrow> string \<Rightarrow> string list" where
  "glob_dir fs d =
     filter (in_dir_star_dot_star (rev (dropWhile (\<lambda>c. c = CHR ''/'') (rev d)))) fs"

definition os_path_exists :: "string list \<Rightarrow> string \<Rightarrow> bool" where
  "os_path_exists fs p = (p \<in> set fs)"

text \<open>
  \<^verbatim>\<open>CsvDocHolder.to_csv(path)\<close> as far as the directory listing sees it: the
  file \<open>path\<close> exists afterwards, unless \<open>path\<close> is empty.
\<close>

definition res_csv_to_csv :: "GushChelka \<Rightarrow> world \<Rightarrow> world" where
  "res_csv_to_csv j w =
     (if res_csv_path j = [] \<or> res_csv_path j \<in> set (files w) then w
      else w\<lparr>files := files w @ [res_csv_path j]\<rparr>)"

section \<open>Walking the table of a case\<close>

text \<open>
  \<^verbatim>\<open>GushChelka.handle_table_row\<close>.  A row with no cell at index \<^verbatim>\<open>PDFBTN\<close> is
  passed over.  Otherwise the row is recorded, \<^verbatim>\<open>docs_in_csv\<close> is incremented
  and written to the ledger row \<^verbatim>\<open>status_index\<close> (no \<^verbatim>\<open>to_csv\<close> follows); if
  the file is not there yet the cell is clicked, which may raise, and
  \<^verbatim>\<open>wait_for_doc\<close> is waited for: it changes no state, and the size text is
  taken to be one it can convert.
\<close>

definition handle_table_row :: "table_row \<Rightarrow> GushChelka \<Rightarrow> world \<Rightarrow> outcome" where
  "handle_table_row tr j w =
     (if length (tds tr) \<le> PDFBTN then Done j w
      else
        let doc_file = documentid tr;
            doc_path = os_path_join (res_dir j) doc_file;
            record = create_record j (tds tr ! 0) (tds tr ! 1) (tds tr ! 3) (tds tr ! 4)
                       (tds tr ! 5) doc_path;
            j1 = j\<lparr>res_csv := CsvDocHolder_add (res_csv j) record,
                   docs_in_csv := docs_in_csv j + 1\<rparr>
        in case py_set (th_docs_in_csv (status_csv w)) (status_index j1) (str (docs_in_csv j1)) of
             None \<Rightarrow> Raised IndexError j1 w
           | Some col \<Rightarrow>
               let w1 = w\<lparr>status_csv := (status_csv w)\<lparr>th_docs_in_csv := col\<rparr>\<rparr>
               in if os_path_exists (files w1) doc_path then Done j1 w1
                  else if click_raises tr then Raised DownloadFault j1 w1
                  else if materializes tr then Done j1 (w1\<lparr>files := files w1 @ [doc_path]\<rparr>)
                  else Done j1 w1)"

text \<open>
  The row loop of \<^verbatim>\<open>handle_table\<close>: \<^verbatim>\<open>current_row\<close> is advanced, the row is
  handled, and a displayed back link ends the loop (\<open>BackBtn\<close>).
\<close>

fun handle_rows :: "table_row list \<Rightarrow> GushChelka \<Rightarrow> world \<Rightarrow> rows_outcome" where
  "handle_rows [] j w = RowsDone j w"
| "handle_rows (tr # rest) j w =
     (case handle_table_row tr (j\<lparr>current_row := current_row j + 1\<rparr>) w of
        Raised f j' w' \<Rightarrow> RowsRaised f j' w'
      | Done j' w' \<Rightarrow> if back_btn tr then BackBtn j' w' else handle_rows rest j' w')"

text \<open>
  The head of \<^verbatim>\<open>handle_table\<close>: on page 1 of a fresh walk the declared count
  is read, written to the ledger row \<^verbatim>\<open>status_index\<close>, and the ledger is saved.
\<close>

definition handle_table_head :: "web_page \<Rightarrow> GushChelka \<Rightarrow> world \<Rightarrow> outcome" where
  "handle_table_head pg j w =
     (if current_page j = 1 \<and> start_idx j = 0
      then
        let j1 = j\<lparr>docs_in_web := web_count pg\<rparr>
        in case py_set (th_docs_in_web (status_csv w)) (status_index j1) (str (docs_in_web j1)) of
             None \<Rightarrow> Raised IndexError j1 w
           | Some col \<Rightarrow>
               let w1 = w\<lparr>status_csv := (status_csv w)\<lparr>th_docs_in_web := col\<rparr>\<rparr>
               in (case CsvTikHolder_to_csv (status_csv w1) (status_file w1) of
                     None \<Rightarrow> Raised IndexError j1 w1
                   | Some f \<Rightarrow>
                       Done (j1\<lparr>multiple_gush_chelka := page_multiple_gush_chelka pg,
                                address := page_address pg\<rparr>)
                            (w1\<lparr>status_file := f\<rparr>))
      else Done j w)"

text \<open>
  \<^verbatim>\<open>GushChelka.handle_table\<close>.  \<open>pages\<close> is the page the driver shows followed
  by the pages after it.  After a back link the walk restarts on the same page
  from the row after the current one; after the rows of a page it stops when
  \<^verbatim>\<open>docs_in_csv\<close> exceeds \<^verbatim>\<open>docs_in_web\<close>, and otherwise follows the next-page
  button when there is one.
\<close>

function handle_table :: "web_page list \<Rightarrow> GushChelka \<Rightarrow> world \<Rightarrow> outcome" where
  "handle_table pages j w =
     (case handle_table_head (case pages of [] \<Rightarrow> blank_page | p # ps \<Rightarrow> p) j w of
        Raised f j1 w1 \<Rightarrow> Raised f j1 w1
      | Done j1 w1 \<Rightarrow>
          (case handle_rows
                  (py_slice_from (trs (case pages of [] \<Rightarrow> blank_page | p # ps \<Rightarrow> p))
                     (start_idx j1))
                  (j1\<lparr>current_row := start_idx j1\<rparr>) w1 of
             RowsRaised f j2 w2 \<Rightarrow> Raised f j2 w2
           | BackBtn j2 w2 \<Rightarrow> handle_table pages (j2\<lparr>start_idx := current_row j2\<rparr>) w2
           | RowsDone j2 w2 \<Rightarrow>
               if docs_in_csv j2 > docs_in_web j2 then Done j2 w2
               else if tl pages \<noteq> []
               then (case CsvTikHolder_to_csv (status_csv w2) (status_file w2) of
                       None \<Rightarrow>
                         Raised IndexError
                           (update_fields (status_csv w2)
                              (j2\<lparr>current_page := current_page j2 + 1, start_idx := 0\<rparr>)) w2
                     | Some f \<Rightarrow>
                         handle_table (tl pages)
                           (update_fields (status_csv w2)
                              (j2\<lparr>current_page := current_page j2 + 1, start_idx := 0\<rparr>))
                           (w2\<lparr>status_file := f\<rparr>))
               else Done j2 w2))"
  by pat_completeness auto
termination
proof (relation "measures [\<lambda>(pages, j, w). length pages,
                            \<lambda>(pages, j, w). nat (int (length (trs (case pages of [] \<Rightarrow> blank_page
                                                                    | p # ps \<Rightarrow> p))) - start_idx j)]")
  show "wf (measures [\<lambda>(pages, j, w). length pages,
                       \<lambda>(pages, j, w). nat (int (length (trs (case pages of [] \<Rightarrow> blank_page
                                                               | p # ps \<Rightarrow> p))) - start_idx j)])"
    by simp
next
  fix pages :: "web_page list" and j j1 j2 :: GushChelka and w w1 w2 :: world
  assume head: "handle_table_head (case pages of [] \<Rightarrow> blank_page | p # ps \<Rightarrow> p) j w = Done j1 w1"
    and rows: "handle_rows
                 (py_slice_from (trs (case pages of [] \<Rightarrow> blank_page | p # ps \<Rightarrow> p)) (start_idx j1))
                 (j1\<lparr>current_row := start_idx j1\<rparr>) w1 = BackBtn j2 w2"
  have row_keeps: "current_row b = current_row a"
    if "handle_table_row tr a v = Done b v'" for tr a v b v'
    using that
    by (auto simp: handle_table_row_def Let_def split: if_splits option.splits)
  have grows: "rs \<noteq> [] \<and> current_row a < current_row b"
    if "handle_rows rs a v = BackBtn b v'" for rs a v b v'
    using that
  proof (induction rs arbitrary: a v)
    case Nil
    then show ?case by simp
  next
    case (Cons tr rs)
    then show ?case
      by (fastforce split: outcome.splits if_splits dest: row_keeps)
  qed
  have same: "start_idx j1 = start_idx j"
    using head by (auto simp: handle_table_head_def Let_def split: if_splits option.splits)
  from grows [OF rows]
  have ne: "py_slice_from (trs (case pages of [] \<Rightarrow> blank_page | p # ps \<Rightarrow> p)) (start_idx j1) \<noteq> []"
    and up: "start_idx j1 < current_row j2"
    by simp_all
  from ne have "start_idx j1 < int (length (trs (case pages of [] \<Rightarrow> blank_page | p # ps \<Rightarrow> p)))"
    by (auto simp: py_slice_from_def split: if_splits)
  with up same
  show "((pages, j2\<lparr>start_idx := current_row j2\<rparr>, w2), (pages, j, w))
          \<in> measures [\<lambda>(pages, j, w). length pages,
                       \<lambda>(pages, j, w). nat (int (length (trs (case pages of [] \<Rightarrow> blank_page
                                                               | p # ps \<Rightarrow> p))) - start_idx j)]"
    by simp
next
  fix pages :: "web_page list" and j j1 j2 :: GushChelka and w w1 w2 :: world
    and f :: "string list list option"
  assume "tl pages \<noteq> []"
  then show "((tl pages,
               update_fields (status_csv w2) (j2\<lparr>current_page := current_page j2 + 1, start_idx := 0\<rparr>),
               w2\<lparr>status_file := f\<rparr>), (pages, j, w))
          \<in> measures [\<lambda>(pages, j, w). length pages,
                       \<lambda>(pages, j, w). nat (int (length (trs (case pages of [] \<Rightarrow> blank_page
                                                               | p # ps \<Rightarrow> p))) - start_idx j)]"
    by (cases pages) auto
qed

declare handle_table.simps [simp del]

section \<open>The per-case status update\<close>

text \<open>
  The body of the loop of \<^verbatim>\<open>update_status_csv\<close> for ledger row \<open>i\<close>, given the
  three lists the method computed before the loop.  \<open>None\<close> is the
  \<^verbatim>\<open>IndexError\<close> of a column shorter than the \<^verbatim>\<open>tik_id\<close> column.
\<close>

definition update_status_row ::
    "GushChelka \<Rightarrow> string list \<Rightarrow> string list \<Rightarrow> string list \<Rightarrow> CsvTikHolder \<Rightarrow> nat
      \<Rightarrow> CsvTikHolder option" where
  "update_status_row j filtered_dir_docs docs_in_dir_not_in_csv docs_in_csv_not_in_dir h i =
     (if i < length (th_docs_in_web h) \<and> i < length (th_docs_in_csv h)
         \<and> i < length (th_docs_in_directory h) \<and> i < length (th_docs_in_dir_not_in_csv h)
         \<and> i < length (th_docs_in_csv_not_in_dir h) \<and> i < length (th_status h)
      then Some (h\<lparr>
        th_docs_in_web :=
          (if th_docs_in_web h ! i = ''0'' \<and> docs_in_web j > 0
           then (th_docs_in_web h)[i := str (docs_in_web j)] else th_docs_in_web h),
        th_docs_in_csv := (th_docs_in_csv h)[i := str (docs_in_csv j)],
        th_docs_in_directory :=
          (th_docs_in_directory h)[i := str (int (length filtered_dir_docs))],
        th_docs_in_dir_not_in_csv :=
          (th_docs_in_dir_not_in_csv h)[i := str (int (length docs_in_dir_not_in_csv))],
        th_docs_in_csv_not_in_dir :=
          (th_docs_in_csv_not_in_dir h)[i := str (int (length docs_in_csv_not_in_dir))],
        th_status :=
          (if 0 < docs_in_csv j \<and> docs_in_csv j = docs_in_web j
              \<and> docs_in_web j \<le> int (length filtered_dir_docs)
              \<and> docs_in_csv_not_in_dir = []
           then (th_status h)[i := COMPLETED]
           else if th_status h ! i \<noteq> COMPLETED then (th_status h)[i := MISMATCH]
           else th_status h)\<rparr>)
      else None)"

fun update_status_rows ::
    "GushChelka \<Rightarrow> string list \<Rightarrow> string list \<Rightarrow> string list \<Rightarrow> nat list \<Rightarrow> CsvTikHolder
      \<Rightarrow> CsvTikHolder option" where
  "update_status_rows j fd dnc cnd [] h = Some h"
| "update_status_rows j fd dnc cnd (i # is) h =
     (case update_status_row j fd dnc cnd h i of
        None \<Rightarrow> None
      | Some h' \<Rightarrow> update_status_rows j fd dnc cnd is h')"

text \<open>
  \<^verbatim>\<open>GushChelka.update_status_csv\<close>: the directory listing without the program's
  own files, the two difference lists, the loop over every ledger row with the
  job's \<^verbatim>\<open>tik_id\<close>, and the save of the ledger.
\<close>

definition filtered_dir_docs_of :: "GushChelka \<Rightarrow> world \<Rightarrow> string list" where
  "filtered_dir_docs_of j w =
     filter (\<lambda>x. \<not> str_in FILE_PREFIX x) (glob_dir (files w) (res_dir j))"

definition docs_in_dir_not_in_csv_of :: "GushChelka \<Rightarrow> world \<Rightarrow> string list" where
  "docs_in_dir_not_in_csv_of j w =
     filter (\<lambda>x. x \<notin> set (dh_document (res_csv j))) (filtered_dir_docs_of j w)"

definition docs_in_csv_not_in_dir_of :: "GushChelka \<Rightarrow> world \<Rightarrow> string list" where
  "docs_in_csv_not_in_dir_of j w =
     filter (\<lambda>x. x \<notin> set (filtered_dir_docs_of j w)) (dh_document (res_csv j))"

definition duplicated_tiks :: "GushChelka \<Rightarrow> CsvTikHolder \<Rightarrow> nat list" where
  "duplicated_tiks j h =
     filter (\<lambda>i. th_tik_id h ! i = tik_id j) [0..<length (th_tik_id h)]"

definition update_status_csv :: "GushChelka \<Rightarrow> world \<Rightarrow> world option" where
  "update_status_csv j w =
     (case update_status_rows j (filtered_dir_docs_of j w) (docs_in_dir_not_in_csv_of j w)
             (docs_in_csv_not_in_dir_of j w) (duplicated_tiks j (status_csv w)) (status_csv w) of
        None \<Rightarrow> None
      | Some h \<Rightarrow>
          (case CsvTikHolder_to_csv h (status_file w) of
             None \<Rightarrow> None
           | Some f \<Rightarrow> Some (w\<lparr>status_csv := h, status_file := f\<rparr>)))"

section \<open>A crawl job\<close>

text \<open>
  \<^verbatim>\<open>launch_and_accept_policy\<close>: \<open>None\<close> when the driver raises; otherwise the
  pages the driver is on.  A resumed job (\<^verbatim>\<open>start_idx > 0\<close>) opens the case at
  \<^verbatim>\<open>PageIndex = current_page - 1\<close>; a page index outside the case's pages is
  taken as a driver fault.
\<close>

definition launch_and_accept_policy :: "driver_env \<Rightarrow> GushChelka \<Rightarrow> web_page list option" where
  "launch_and_accept_policy env j =
     (if launch_raises env then None
      else if start_idx j > 0
      then (if 1 \<le> current_page j \<and> current_page j \<le> int (length (site env (tik_id j)))
            then Some (drop (nat (current_page j - 1)) (site env (tik_id j)))
            else None)
      else Some (site env (tik_id j)))"

text \<open>
  \<^verbatim>\<open>get_indexes_from_status\<close>.  The scan reads the three key columns at every
  index of the \<^verbatim>\<open>ktatrova\<close> column, left to right with short-circuit
  \<^verbatim>\<open>and\<close>; \<open>None\<close> is an \<^verbatim>\<open>IndexError\<close>.
\<close>

fun scan_status :: "CsvTikHolder \<Rightarrow> GushChelka \<Rightarrow> nat list \<Rightarrow> nat list option" where
  "scan_status h j [] = Some []"
| "scan_status h j (i # is) =
     (if ktatrova j = th_ktatrova h ! i
      then (if i < length (th_ms_gush h)
            then (if gush j = th_ms_gush h ! i
                  then (if i < length (th_ms_chelka h)
                        then (if chelka j = th_ms_chelka h ! i
                              then map_option ((#) i) (scan_status h j is)
                              else scan_status h j is)
                        else None)
                  else scan_status h j is)
            else None)
      else scan_status h j is)"

definition get_indexes_from_status :: "CsvTikHolder \<Rightarrow> GushChelka \<Rightarrow> GushChelka option" where
  "get_indexes_from_status h j =
     (case (if tik_id j \<noteq> []
            then th_key_to_index h (make_key (ktatrova j) (gush j) (chelka j) (tik_id j))
            else None) of
        Some i \<Rightarrow> Some (j\<lparr>tik_indexes := tik_indexes j @ [i]\<rparr>)
      | None \<Rightarrow>
          map_option (\<lambda>found. j\<lparr>tik_indexes := tik_indexes j @ found\<rparr>)
            (scan_status h j [0..<length (th_ktatrova h)]))"

text \<open>
  The ids of the job's ledger rows that are not \<^verbatim>\<open>completed\<close>, as
  \<^verbatim>\<open>list(set(...))\<close>; the order of a Python set is not specified, the first
  occurrences are kept in order here.
\<close>

definition uncompleted_tik_ids :: "CsvTikHolder \<Rightarrow> nat list \<Rightarrow> string list option" where
  "uncompleted_tik_ids h idx =
     (if list_all (\<lambda>i. i < length (th_status h)
                        \<and> (th_status h ! i = COMPLETED \<or> i < length (th_tik_id h))) idx
      then Some (remdups (map (\<lambda>i. th_tik_id h ! i)
                            (filter (\<lambda>i. th_status h ! i \<noteq> COMPLETED) idx)))
      else None)"

text \<open>\<^verbatim>\<open>get_tik_ids\<close> and \<^verbatim>\<open>search_no_results_message\<close>, reading the driver.\<close>

definition get_tik_ids :: "driver_env \<Rightarrow> GushChelka \<Rightarrow> GushChelka" where
  "get_tik_ids env j =
     (let j1 = j\<lparr>tik_ids := search_tik_ids env (gush j) (chelka j)\<rparr>
      in if tik_ids j1 = [] \<and> search_no_results env (gush j) (chelka j)
         then j1\<lparr>no_results := NO_RESULTS\<rparr> else j1)"

definition search_no_results_message :: "driver_env \<Rightarrow> GushChelka \<Rightarrow> GushChelka" where
  "search_no_results_message env j =
     (if tik_no_results env (tik_id j) then j\<lparr>no_results := NO_RESULTS\<rparr> else j)"

text \<open>\<^verbatim>\<open>add_status_records\<close>: the new ledger rows, then the save.\<close>

definition add_status_records :: "GushChelka \<Rightarrow> world \<Rightarrow> world option" where
  "add_status_records j w =
     (let records =
            (if tik_ids j = []
             then [create_status_record (ktatrova j) (gush j) (chelka j) [] COMPLETED NO_RESULTS]
             else map (\<lambda>t. create_status_record (ktatrova j) (gush j) (chelka j) t [] [])
                    (tik_ids j))
      in case CsvTikHolder_extend (status_csv w) records of
           None \<Rightarrow> None
         | Some h \<Rightarrow>
             (case CsvTikHolder_to_csv h (status_file w) of
                None \<Rightarrow> None
              | Some f \<Rightarrow> Some (w\<lparr>status_csv := h, status_file := f\<rparr>)))"

definition put_tiks_in_queue :: "GushChelka \<Rightarrow> world \<Rightarrow> world" where
  "put_tiks_in_queue j w =
     w\<lparr>queue := queue w @
          map (\<lambda>t. update_fields (status_csv w)
                     ((GushChelka_init (ktatrova j) (gush j) (chelka j))\<lparr>tik_id := t\<rparr>))
            (py_slice_from (tik_ids j) (if tik_id j \<noteq> [] then 1 else 0))\<rparr>"

text \<open>
  The part of \<^verbatim>\<open>download_docs_and_get_data\<close> that every branch reaches after a
  walk of the table: the document table is saved and the status is updated.
\<close>

definition save_and_update :: "GushChelka \<Rightarrow> world \<Rightarrow> outcome" where
  "save_and_update j w =
     (case update_status_csv j (res_csv_to_csv j w) of
        None \<Rightarrow> Raised IndexError j (res_csv_to_csv j w)
      | Some w' \<Rightarrow> Done j w')"

text \<open>The block for a re-queued job (\<^verbatim>\<open>if self.start_idx > 0\<close>).\<close>

definition resume_block :: "driver_env \<Rightarrow> GushChelka \<Rightarrow> world \<Rightarrow> outcome" where
  "resume_block env j w =
     (case launch_and_accept_policy env j of
        None \<Rightarrow> Raised NavigationFault j w
      | Some pages \<Rightarrow>
          (case handle_table pages j w of
             Raised f j' w' \<Rightarrow> Raised f j' w'
           | Done j' w' \<Rightarrow> save_and_update j' w'))"

text \<open>The \<^verbatim>\<open>try\<close> block that opens the page of the parcel or of the case.\<close>

definition fetch_case :: "driver_env \<Rightarrow> web_page list \<Rightarrow> GushChelka \<Rightarrow> world \<Rightarrow> outcome" where
  "fetch_case env pages j w =
     (let w1 = (if tik_ids j \<noteq> [] then put_tiks_in_queue j w else w)
      in if tik_id j \<noteq> []
         then
           let j1 = search_no_results_message env j
           in if no_results j1 = NO_RESULTS
              then (case py_set (th_status (status_csv w1)) (status_index j1) COMPLETED of
                      None \<Rightarrow> Raised IndexError j1 w1
                    | Some st \<Rightarrow>
                        (case py_set (th_no_results (status_csv w1)) (status_index j1) NO_RESULTS of
                           None \<Rightarrow>
                             Raised IndexError j1
                               (w1\<lparr>status_csv := (status_csv w1)\<lparr>th_status := st\<rparr>\<rparr>)
                         | Some nr \<Rightarrow>
                             (case update_status_csv j1
                                     (w1\<lparr>status_csv :=
                                           (status_csv w1)\<lparr>th_status := st, th_no_results := nr\<rparr>\<rparr>) of
                                None \<Rightarrow>
                                  Raised IndexError j1
                                    (w1\<lparr>status_csv :=
                                          (status_csv w1)\<lparr>th_status := st, th_no_results := nr\<rparr>\<rparr>)
                              | Some w2 \<Rightarrow> Done j1 w2)))
              else (case handle_table pages (j1\<lparr>current_page := 1\<rparr>) w1 of
                      Raised f j2 w2 \<Rightarrow> Raised f j2 w2
                    | Done j2 w2 \<Rightarrow> save_and_update j2 w2)
         else Done j w1)"

definition open_and_fetch :: "driver_env \<Rightarrow> GushChelka \<Rightarrow> world \<Rightarrow> outcome" where
  "open_and_fetch env j w =
     (case launch_and_accept_policy env j of
        None \<Rightarrow> Raised NavigationFault j w
      | Some pages \<Rightarrow>
          if tik_id j = []
          then
            let j1 = get_tik_ids env j
            in (case add_status_records j1 w of
                  None \<Rightarrow> Raised IndexError j1 w
                | Some w1 \<Rightarrow>
                    if tik_ids j1 = [] then Done j1 w1 else fetch_case env pages j1 w1)
          else fetch_case env pages j w)"

text \<open>
  \<^verbatim>\<open>GushChelka.download_docs_and_get_data\<close>: the block for a re-queued job,
  the lookup of the job's ledger rows, the return for a parcel or case whose
  rows are all \<^verbatim>\<open>completed\<close>, the claim check, and the fetch.
\<close>

definition lookup_and_fetch :: "driver_env \<Rightarrow> GushChelka \<Rightarrow> world \<Rightarrow> outcome" where
  "lookup_and_fetch env j w =
     (case get_indexes_from_status (status_csv w) j of
        None \<Rightarrow> Raised IndexError j w
      | Some j1 \<Rightarrow>
          (case uncompleted_tik_ids (status_csv w) (tik_indexes j1) of
             None \<Rightarrow> Raised IndexError j1 w
           | Some tids \<Rightarrow>
               if tik_indexes j1 \<noteq> [] \<and> tids = [] then Done j1 w
               else
                 let j2 = (if tids \<noteq> []
                           then update_fields (status_csv w) (j1\<lparr>tik_ids := tids, tik_id := hd tids\<rparr>)
                           else j1);
                     claimed = claim_check (tik_id j2) (status_csv w)
                 in if fst claimed then Done j2 (w\<lparr>status_csv := snd claimed\<rparr>)
                    else open_and_fetch env j2 (w\<lparr>status_csv := snd claimed\<rparr>)))"

definition download_docs_and_get_data :: "driver_env \<Rightarrow> GushChelka \<Rightarrow> world \<Rightarrow> outcome" where
  "download_docs_and_get_data env j w =
     (if start_idx j > 0
      then (case resume_block env j w of
              Raised f j' w' \<Rightarrow> Raised f j' w'
            | Done j' w' \<Rightarrow> lookup_and_fetch env j' w')
      else lookup_and_fetch env j w)"

section \<open>The download worker\<close>

text \<open>
  One iteration of \<^verbatim>\<open>DownloadWorker.run\<close> for the job \<open>j\<close> taken from the queue.
  The result is the fault the job raised (if any), the job put back on the queue
  (if any) and the state.  In the handler the document table is saved, the
  status is updated, and the job is put back at the tail of the queue, with
  \<^verbatim>\<open>start_idx = current_row\<close>, when \<^verbatim>\<open>docs_in_csv < docs_in_web\<close>.  An
  \<^verbatim>\<open>IndexError\<close> of the status update inside the handler ends the thread before
  the queue is touched.
\<close>

definition run_iteration ::
    "driver_env \<Rightarrow> GushChelka \<Rightarrow> world \<Rightarrow> fault option \<times> GushChelka option \<times> world" where
  "run_iteration env j w =
     (case download_docs_and_get_data env j w of
        Done j' w' \<Rightarrow> (None, None, w')
      | Raised f j' w' \<Rightarrow>
          (case update_status_csv j' (res_csv_to_csv j' w') of
             None \<Rightarrow> (Some f, None, res_csv_to_csv j' w')
           | Some w2 \<Rightarrow>
               if docs_in_csv j' < docs_in_web j'
               then (Some f, Some (j'\<lparr>start_idx := current_row j'\<rparr>),
                     w2\<lparr>queue := queue w2 @ [j'\<lparr>start_idx := current_row j'\<rparr>]\<rparr>)
               else (Some f, None, w2)))"

text \<open>
  The worker loop: jobs are taken from the head of the queue until it is empty
  (where \<^verbatim>\<open>queue.get()\<close> blocks).  The loop need not end, so it runs on fuel.
\<close>

fun run :: "nat \<Rightarrow> driver_env \<Rightarrow> world \<Rightarrow> world" where
  "run 0 env w = w"
| "run (Suc n) env w =
     (case queue w of
        [] \<Rightarrow> w
      | j # q \<Rightarrow> run n env (snd (snd (run_iteration env j (w\<lparr>queue := q\<rparr>)))))"

text \<open>
  The life of one job: \<open>ws\<close> are the shared states in which the worker takes
  the job from the queue, attempt after attempt (other jobs run in between).
  \<open>requeue_count\<close> counts how often the job is put back, \<open>attempt_faults\<close>
  lists the faults of its attempts.
\<close>

fun requeue_count :: "driver_env \<Rightarrow> GushChelka \<Rightarrow> world list \<Rightarrow> nat" where
  "requeue_count env j [] = 0"
| "requeue_count env j (w # ws) =
     (case fst (snd (run_iteration env j w)) of
        None \<Rightarrow> 0
      | Some j' \<Rightarrow> Suc (requeue_count env j' ws))"

fun attempt_faults :: "driver_env \<Rightarrow> GushChelka \<Rightarrow> world list \<Rightarrow> fault list" where
  "attempt_faults env j [] = []"
| "attempt_faults env j (w # ws) =
     (case fst (run_iteration env j w) of
        None \<Rightarrow> []
      | Some f \<Rightarrow>
          (case fst (snd (run_iteration env j w)) of
             None \<Rightarrow> [f]
           | Some j' \<Rightarrow> f # attempt_faults env j' ws))"

section \<open>Waiting for a document\<close>





section \<open>Reconciliation and the merged report\<close>

text \<open>
  \<^verbatim>\<open>Reporter\<close>.  Field \<open>rp_x\<close> is the attribute \<open>x\<close>; \<^verbatim>\<open>input_csv\<close> and
  \<^verbatim>\<open>status_csv\<close> are arguments of \<open>verify_ktatrova\<close> below.  The two
  discrepancy lists hold the \<^verbatim>\<open>(index, path)\<close> pairs of \<^verbatim>\<open>enumerate\<close>.
\<close>

record Reporter =
  rp_ktatrova :: "string option"
  rp_path :: string
  rp_gush_chelka_received :: int
  rp_tiks_received :: int
  rp_completed :: "GushChelka list"
  rp_mismatches :: "GushChelka list"
  rp_waiting :: "GushChelka list"
  rp_docs_in_csv_count :: int
  rp_docs_in_dir_count :: int
  rp_docs_in_web_count :: int
  rp_gushes :: "string list"
  rp_chelkas :: "string list"
  rp_ids :: "string list"
  rp_pages :: "pyval list"
  rp_row_nums :: "pyval list"
  rp_docs :: "string list"
  rp_in_csv_not_in_dir :: "(nat \<times> string) list"
  rp_in_dir_not_in_csv :: "(nat \<times> string) list"
  rp_reporters :: "string list"

definition Reporter_init :: "string option \<Rightarrow> Reporter" where
  "Reporter_init k =
     \<lparr>rp_ktatrova = k, rp_path = [], rp_gush_chelka_received = 0, rp_tiks_received = 0,
      rp_completed = [], rp_mismatches = [], rp_waiting = [], rp_docs_in_csv_count = 0,
      rp_docs_in_dir_count = 0, rp_docs_in_web_count = 0, rp_gushes = [], rp_chelkas = [],
      rp_ids = [], rp_pages = [], rp_row_nums = [], rp_docs = [],
      rp_in_csv_not_in_dir = [], rp_in_dir_not_in_csv = [], rp_reporters = []\<rparr>"

text \<open>
  Python's \<^verbatim>\<open>int\<close> on a string of one-byte characters: surrounding white space
  is dropped, a sign may lead, and the digits may be separated by single
  underscores.  \<open>None\<close> is the \<^verbatim>\<open>ValueError\<close>.
\<close>

definition is_digit :: "char \<Rightarrow> bool" where
  "is_digit c = (c \<in> set ''0123456789'')"

definition digit_val :: "char \<Rightarrow> nat" where
  "digit_val c = of_char c - 48"

definition is_space :: "char \<Rightarrow> bool" where
  "is_space c =
     (c \<in> set [CHR '' '', CHR 0x09, CHR 0x0A, CHR 0x0B, CHR 0x0C, CHR 0x0D,
                CHR 0x1C, CHR 0x1D, CHR 0x1E, CHR 0x1F, CHR 0x85, CHR 0xA0])"

fun digits_val :: "string \<Rightarrow> nat \<Rightarrow> nat option" where
  "digits_val [] acc = Some acc"
| "digits_val (c # cs) acc =
     (if is_digit c then digits_val cs (10 * acc + digit_val c)
      else if c = CHR ''_''
      then (case cs of
              [] \<Rightarrow> None
            | d # ds \<Rightarrow> if is_digit d then digits_val ds (10 * acc + digit_val d) else None)
      else None)"

definition py_nat :: "string \<Rightarrow> nat option" where
  "py_nat s =
     (case s of
        [] \<Rightarrow> None
      | c # cs \<Rightarrow> if is_digit c then digits_val cs (digit_val c) else None)"

definition py_int :: "string \<Rightarrow> int option" where
  "py_int s =
     (case rev (dropWhile is_space (rev (dropWhile is_space s))) of
        [] \<Rightarrow> None
      | c # cs \<Rightarrow>
          if c = CHR ''-'' then map_option (\<lambda>n. - int n) (py_nat cs)
          else if c = CHR ''+'' then map_option int (py_nat cs)
          else map_option int (py_nat (c # cs)))"

text \<open>
  The loop of \<open>verify_ktatrova\<close> that sums the declared count of every
  distinct case id: \<open>i\<close> is the index of the head of the remaining ids.
\<close>

fun sum_web_counts ::
    "string list \<Rightarrow> nat \<Rightarrow> string list \<Rightarrow> string set \<Rightarrow> int \<Rightarrow> fault + int" where
  "sum_web_counts [] i col counted acc = Inr acc"
| "sum_web_counts (t # ts) i col counted acc =
     (if t \<notin> counted
      then (if i < length col
            then (case py_int (col ! i) of
                    None \<Rightarrow> Inl ValueError
                  | Some n \<Rightarrow> sum_web_counts ts (i + 1) col (insert t counted) (acc + n))
            else Inl IndexError)
      else sum_web_counts ts (i + 1) col (insert t counted) acc)"

text \<open>
  The loop that sorts every ledger row into \<^verbatim>\<open>completed\<close>, \<^verbatim>\<open>mismatches\<close> or
  \<^verbatim>\<open>waiting\<close> by its stored status.
\<close>

fun bucket_rows :: "CsvTikHolder \<Rightarrow> nat list \<Rightarrow> Reporter \<Rightarrow> fault + Reporter" where
  "bucket_rows h [] r = Inr r"
| "bucket_rows h (i # is) r =
     (if i < length (th_ms_gush h) \<and> i < length (th_ms_chelka h)
         \<and> i < length (th_tik_id h) \<and> i < length (th_status h)
      then
        let status_tik =
              (GushChelka_init (th_ktatrova h ! i) (th_ms_gush h ! i) (th_ms_chelka h ! i))
                \<lparr>tik_id := th_tik_id h ! i\<rparr>
        in if th_status h ! i = COMPLETED
           then bucket_rows h is (r\<lparr>rp_completed := rp_completed r @ [status_tik]\<rparr>)
           else if th_status h ! i = MISMATCH
           then bucket_rows h is (r\<lparr>rp_mismatches := rp_mismatches r @ [status_tik]\<rparr>)
           else bucket_rows h is (r\<lparr>rp_waiting := rp_waiting r @ [status_tik]\<rparr>)
      else Inl IndexError)"

text \<open>
  \<^verbatim>\<open>Reporter.verify_ktatrova\<close>.  The arguments are what the method reads from
  outside: whether the group's directory exists, the recursive directory
  listing \<^verbatim>\<open>dir_docs\<close>, the merged document table as \<^verbatim>\<open>read_csv\<close> loaded it,
  and the reporter's \<^verbatim>\<open>input_csv\<close> and \<^verbatim>\<open>status_csv\<close>.
\<close>

definition verify_ktatrova ::
    "bool \<Rightarrow> string list \<Rightarrow> CsvDocHolder \<Rightarrow> CsvTikHolder \<Rightarrow> CsvTikHolder \<Rightarrow> Reporter
      \<Rightarrow> fault + Reporter" where
  "verify_ktatrova res_dir_exists dir_docs merged_csv input_csv status r =
     (if \<not> res_dir_exists then Inr r
      else
        let filtered_dir_docs = filter (\<lambda>x. \<not> str_in FILE_PREFIX x) dir_docs;
            r1 = r\<lparr>rp_gush_chelka_received :=
                      int (length (filter (\<lambda>x. Some x = rp_ktatrova r) (th_ktatrova input_csv))),
                   rp_tiks_received := int (length (th_ktatrova status)),
                   rp_gushes := dh_ms_gush merged_csv,
                   rp_chelkas := dh_ms_chelka merged_csv,
                   rp_ids := dh_tik_id merged_csv,
                   rp_pages := dh_page_number merged_csv,
                   rp_row_nums := dh_row_number merged_csv,
                   rp_docs := dh_document merged_csv,
                   rp_docs_in_csv_count := int (length (dh_document merged_csv)),
                   rp_docs_in_dir_count := int (length filtered_dir_docs)\<rparr>
        in case sum_web_counts (th_tik_id status) 0 (th_docs_in_web status) {}
                  (rp_docs_in_web_count r1) of
             Inl e \<Rightarrow> Inl e
           | Inr web_total \<Rightarrow>
               bucket_rows status [0..<length (th_ktatrova status)]
                 (r1\<lparr>rp_docs_in_web_count := web_total,
                     rp_in_csv_not_in_dir :=
                       filter (\<lambda>x. snd x \<notin> set filtered_dir_docs) (enumerate 0 (rp_docs r1)),
                     rp_in_dir_not_in_csv :=
                       filter (\<lambda>x. snd x \<notin> set (rp_docs r1)) (enumerate 0 filtered_dir_docs)\<rparr>))"

text \<open>
  \<^verbatim>\<open>merge_reports\<close>, up to the call of \<^verbatim>\<open>write_report\<close>, which only formats
  the merged reporter; \<open>rp_reporters\<close> keeps the paths of the merged reports,
  which is what \<^verbatim>\<open>write_report\<close> prints of them.
\<close>

definition merge_one :: "Reporter \<Rightarrow> Reporter \<Rightarrow> Reporter" where
  "merge_one reporter merged_reporter =
     merged_reporter\<lparr>
       rp_gush_chelka_received :=
         rp_gush_chelka_received merged_reporter + rp_gush_chelka_received reporter,
       rp_tiks_received := rp_tiks_received merged_reporter + rp_tiks_received reporter,
       rp_completed := rp_completed merged_reporter @ rp_completed reporter,
       rp_mismatches := rp_mismatches merged_reporter @ rp_mismatches reporter,
       rp_waiting := rp_waiting merged_reporter @ rp_waiting reporter,
       rp_docs_in_csv_count := rp_docs_in_csv_count merged_reporter + rp_docs_in_csv_count reporter,
       rp_docs_in_dir_count := rp_docs_in_dir_count merged_reporter + rp_docs_in_dir_count reporter,
       rp_docs_in_web_count := rp_docs_in_web_count merged_reporter + rp_docs_in_web_count reporter,
       rp_in_csv_not_in_dir := rp_in_csv_not_in_dir merged_reporter @ rp_in_csv_not_in_dir reporter,
       rp_in_dir_not_in_csv := rp_in_dir_not_in_csv merged_reporter @ rp_in_dir_not_in_csv reporter\<rparr>"

definition merge_reports :: "Reporter list \<Rightarrow> Reporter" where
  "merge_reports reporters =
     fold merge_one reporters ((Reporter_init None)\<lparr>rp_reporters := map rp_path reporters\<rparr>)"

section \<open>An invariant of the attempts of a job\<close>

text \<open>
  \<open>within_bound M j out\<close> relates a job \<open>j\<close> to the outcome \<open>out\<close> of a
  step it takes: the recorded count has not decreased, the declared count is at
  most \<open>M\<close>, and if the step raised a \<open>DownloadFault\<close> the recorded count
  has grown.  It is used in the proof of the retry bound only.
\<close>

definition within_bound :: "int \<Rightarrow> GushChelka \<Rightarrow> outcome \<Rightarrow> bool" where
  "within_bound M j out =
     (case out of
        Done j' w' \<Rightarrow> docs_in_csv j \<le> docs_in_csv j' \<and> docs_in_web j' \<le> M
      | Raised f j' w' \<Rightarrow>
          docs_in_csv j \<le> docs_in_csv j' \<and> docs_in_web j' \<le> M
          \<and> (f = DownloadFault \<longrightarrow> docs_in_csv j + 1 \<le> docs_in_csv j'))"

section \<open>Example data\<close>

text \<open>
  A ledger with one row, a merged document table with five documents, and a
  directory listing that holds four of them, one file of the program's own and
  one unrelated file.
\<close>

definition ex_ledger :: CsvTikHolder where
  "ex_ledger = CsvTikHolder_init\<lparr>th_ktatrova := [''1''], th_ms_gush := [''100''],
     th_ms_chelka := [''5''], th_tik_id := [''T1''], th_status := [''mismatch''],
     th_no_results := [[]], th_docs_in_csv := [''5''], th_docs_in_directory := [''5''],
     th_docs_in_web := [''5''], th_docs_in_csv_not_in_dir := [''1''],
     th_docs_in_dir_not_in_csv := [''1'']\<rparr>"

definition ex_merged_csv :: CsvDocHolder where
  "ex_merged_csv = CsvDocHolder_init\<lparr>dh_document := [''a.p'', ''b.p'', ''c.p'', ''d.p'', ''e.p'']\<rparr>"

definition ex_dir_docs :: "string list" where
  "ex_dir_docs = [''a.p'', ''b.p'', ''log__s.c'', ''c.p'', ''d.p'', ''z.p'']"

text \<open>Two group reports: 3 completed and 1 mismatch, 2 completed and no mismatch.\<close>

definition ex_report_1 :: Reporter where
  "ex_report_1 =
     (Reporter_init (Some ''1''))
       \<lparr>rp_completed := replicate 3 (GushChelka_init ''1'' ''100'' ''5''),
        rp_mismatches := [GushChelka_init ''1'' ''100'' ''6''],
        rp_docs := [''a.p'']\<rparr>"

definition ex_report_2 :: Reporter where
  "ex_report_2 =
     (Reporter_init (Some ''2''))\<lparr>rp_completed := replicate 2 (GushChelka_init ''2'' ''200'' ''7'')\<rparr>"

text \<open>
  The case \<open>T1\<close> of parcel (100, 5) in group \<open>1\<close>, one document recorded
  and one declared, and ledgers and directories to evaluate it against.
\<close>

definition ex_job :: GushChelka where
  "ex_job =
     (GushChelka_init ''1'' ''100'' ''5'')
       \<lparr>tik_id := ''T1'', status_index := 0, status_key := ''1_100_5_T1'',
        res_dir := ''output/1/T1'',
        res_csv_path := ''output/1/T1/log__TatRova1_T1.csv'',
        res_csv := CsvDocHolder_add CsvDocHolder_init
                     (create_record ((GushChelka_init ''1'' ''100'' ''5'')\<lparr>tik_id := ''T1''\<rparr>)
                        [] [] [] [] [] ''output/1/T1/a.pdf''),
        docs_in_web := 1, docs_in_csv := 1, current_page := 1, current_row := 1\<rparr>"

definition ex_row_ledger :: "string \<Rightarrow> string list \<Rightarrow> CsvTikHolder" where
  "ex_row_ledger st counters =
     CsvTikHolder_init\<lparr>th_ktatrova := [''1''], th_ms_gush := [''100''],
       th_ms_chelka := [''5''], th_tik_id := [''T1''], th_status := [st],
       th_no_results := [[]], th_docs_in_csv := [counters ! 0],
       th_docs_in_directory := [counters ! 1], th_docs_in_web := [counters ! 2],
       th_docs_in_csv_not_in_dir := [counters ! 3],
       th_docs_in_dir_not_in_csv := [counters ! 4],
       th_key_to_index := [''1_100_5_T1'' \<mapsto> 0], th_next_index := 1\<rparr>"

text \<open>A fresh row, and a directory with the document and one more file.\<close>

definition ex_world_extra_file :: world where
  "ex_world_extra_file =
     \<lparr>status_csv = ex_row_ledger [] [''0'', ''0'', ''1'', ''0'', ''0''],
      status_file = None,
      files = [''output/1/T1/a.pdf'', ''output/1/T1/z.pdf'', ''output/1/T1/log__TatRova1_T1.csv''],
      queue = []\<rparr>"

text \<open>
  A row left \<^verbatim>\<open>mismatch\<close> by an earlier pass whose download timed out, and a
  directory where the document has arrived since.
\<close>

definition ex_world_was_mismatch :: world where
  "ex_world_was_mismatch =
     \<lparr>status_csv = ex_row_ledger ''mismatch'' [''1'', ''0'', ''1'', ''1'', ''0''],
      status_file = None,
      files = [''output/1/T1/a.pdf'', ''output/1/T1/log__TatRova1_T1.csv''],
      queue = []\<rparr>"

text \<open>
  Two rows of the case \<open>T1\<close>, reached from parcels (100, 5) and (100, 6): the
  first \<^verbatim>\<open>completed\<close> by an earlier run that saw 3 documents declared, the
  second new; the directory is empty.
\<close>

definition ex_world_two_parcels :: world where
  "ex_world_two_parcels =
     \<lparr>status_csv =
        CsvTikHolder_init\<lparr>th_ktatrova := [''1'', ''1''], th_ms_gush := [''100'', ''100''],
          th_ms_chelka := [''5'', ''6''], th_tik_id := [''T1'', ''T1''],
          th_status := [''completed'', []], th_no_results := [[], []],
          th_docs_in_csv := [''3'', ''0''], th_docs_in_directory := [''3'', ''0''],
          th_docs_in_web := [''3'', ''0''], th_docs_in_csv_not_in_dir := [''0'', ''0''],
          th_docs_in_dir_not_in_csv := [''0'', ''0''],
          th_key_to_index := [''1_100_5_T1'' \<mapsto> 0, ''1_100_6_T1'' \<mapsto> 1],
          th_next_index := 2\<rparr>,
      status_file = None, files = [], queue = []\<rparr>"

text \<open>
  The job for the case \<open>T1\<close> as \<^verbatim>\<open>put_tiks_in_queue\<close> builds it, a table row
  with a document cell, and a page that declares one document and lists two.
\<close>

definition ex_fresh_job :: GushChelka where
  "ex_fresh_job =
     update_fields (ex_row_ledger [] [''0'', ''0'', ''0'', ''0'', ''0''])
       ((GushChelka_init ''1'' ''100'' ''5'')\<lparr>tik_id := ''T1''\<rparr>)"

definition ex_doc_row :: "string \<Rightarrow> bool \<Rightarrow> table_row" where
  "ex_doc_row f raises =
     \<lparr>tds = [''2001'', ''plan'', [], ''12'', ''34'', ''1.5MB'', [], []], documentid = f,
      click_raises = raises, materializes = True, back_btn = False\<rparr>"

definition ex_page :: "int \<Rightarrow> table_row list \<Rightarrow> web_page" where
  "ex_page n rows =
     \<lparr>web_count = n, page_multiple_gush_chelka = [], page_address = [], trs = rows\<rparr>"

definition ex_world_fresh :: world where
  "ex_world_fresh =
     \<lparr>status_csv = ex_row_ledger [] [''0'', ''0'', ''0'', ''0'', ''0''],
      status_file = Some [[''1'', ''100'', ''5'', ''T1'', [], [], ''0'', ''0'', ''0'', ''0'', ''0'']],
      files = [], queue = []\<rparr>"

text \<open>
  A document source with the single case \<open>T1\<close>: one page that declares two
  documents and lists them, where every click on a document raises.
\<close>

definition ex_env :: driver_env where
  "ex_env =
     \<lparr>launch_raises = False,
      search_tik_ids = (\<lambda>g c. [''T1'']),
      search_no_results = (\<lambda>g c. False),
      tik_no_results = (\<lambda>t. False),
      site = (\<lambda>t. [ex_page 2 [ex_doc_row ''a.pdf'' True, ex_doc_row ''b.pdf'' True]])\<rparr>"

section \<open>The claim on a case\<close>




section \<open>Reconciliation\<close>

lemma bucket_rows_keeps:
  "bucket_rows h idx r = Inr r' \<Longrightarrow>
     rp_in_csv_not_in_dir r' = rp_in_csv_not_in_dir r
   \<and> rp_in_dir_not_in_csv r' = rp_in_dir_not_in_csv r
   \<and> rp_docs r' = rp_docs r"
  by (induction idx arbitrary: r) (auto simp: Let_def split: if_splits)

lemma map_snd_filter_enumerate:
  "map snd (filter (\<lambda>x. P (snd x)) (enumerate n xs)) = filter P xs"
  by (induction xs arbitrary: n) auto

lemma one_missing:
  assumes "distinct xs" "d \<in> set xs" "set xs - S = {d}"
  shows "length (filter (\<lambda>x. x \<notin> S) xs) = 1"
proof -
  have "length (filter (\<lambda>x. x \<notin> S) xs) = card {x \<in> set xs. x \<notin> S}"
    using assms(1) by (simp add: distinct_length_filter Int_def conj_commute)
  also have "{x \<in> set xs. x \<notin> S} = {d}" using assms(3) by auto
  finally show ?thesis by simp
qed

text \<open>
  Claim C7.  When \<^verbatim>\<open>verify_ktatrova\<close> returns, the paths of its two
  discrepancy lists are the documents of the merged table that are not in the
  filtered directory listing, and the files of the filtered listing that are
  not in the table.  For a table of five distinct documents and a filtered
  listing made of four of them and one file \<open>u\<close> that is not in the table,
  each list has exactly one entry.
\<close>

theorem verify_ktatrova_discrepancies:
  assumes "verify_ktatrova True dir_docs merged_csv input_csv status r = Inr r'"
  shows "map snd (rp_in_csv_not_in_dir r')
           = filter (\<lambda>x. x \<notin> set (filter (\<lambda>x. \<not> str_in FILE_PREFIX x) dir_docs))
               (dh_document merged_csv)
       \<and> map snd (rp_in_dir_not_in_csv r')
           = filter (\<lambda>x. x \<notin> set (dh_document merged_csv))
               (filter (\<lambda>x. \<not> str_in FILE_PREFIX x) dir_docs)
       \<and> (distinct (dh_document merged_csv) \<and> length (dh_document merged_csv) = 5
            \<and> distinct (filter (\<lambda>x. \<not> str_in FILE_PREFIX x) dir_docs)
            \<and> d \<in> set (dh_document merged_csv) \<and> u \<notin> set (dh_document merged_csv)
            \<and> set (filter (\<lambda>x. \<not> str_in FILE_PREFIX x) dir_docs)
                = set (dh_document merged_csv) - {d} \<union> {u}
          \<longrightarrow> length (rp_in_csv_not_in_dir r') = 1 \<and> length (rp_in_dir_not_in_csv r') = 1)"
proof -
  let ?fd = "filter (\<lambda>x. \<not> str_in FILE_PREFIX x) dir_docs"
  let ?docs = "dh_document merged_csv"
  from assms have a: "rp_in_csv_not_in_dir r' = filter (\<lambda>x. snd x \<notin> set ?fd) (enumerate 0 ?docs)"
    and b: "rp_in_dir_not_in_csv r' = filter (\<lambda>x. snd x \<notin> set ?docs) (enumerate 0 ?fd)"
    by (auto simp: verify_ktatrova_def Let_def split: sum.splits dest!: bucket_rows_keeps)
  have c: "map snd (rp_in_csv_not_in_dir r') = filter (\<lambda>x. x \<notin> set ?fd) ?docs"
    unfolding a by (rule map_snd_filter_enumerate)
  have e: "map snd (rp_in_dir_not_in_csv r') = filter (\<lambda>x. x \<notin> set ?docs) ?fd"
    unfolding b by (rule map_snd_filter_enumerate)
  have f: "length (rp_in_csv_not_in_dir r') = 1 \<and> length (rp_in_dir_not_in_csv r') = 1"
    if h: "distinct ?docs" "distinct ?fd" "d \<in> set ?docs" "u \<notin> set ?docs"
          "set ?fd = set ?docs - {d} \<union> {u}"
  proof -
    have "set ?docs - set ?fd = {d}" using h by auto
    then have "length (filter (\<lambda>x. x \<notin> set ?fd) ?docs) = 1"
      using h(1,3) by (intro one_missing) auto
    moreover have "set ?fd - set ?docs = {u}" using h by auto
    then have "length (filter (\<lambda>x. x \<notin> set ?docs) ?fd) = 1"
      using h(2,5) by (intro one_missing) auto
    ultimately show ?thesis
      using c e by (metis length_map)
  qed
  show ?thesis using c e f by blast
qed

theorem verify_ktatrova_discrepancies_witness:
  "(case verify_ktatrova True ex_dir_docs ex_merged_csv ex_ledger ex_ledger
           (Reporter_init (Some ''1'')) of
      Inl e \<Rightarrow> False
    | Inr r' \<Rightarrow> length (rp_in_csv_not_in_dir r') = 1 \<and> length (rp_in_dir_not_in_csv r') = 1
                \<and> map snd (rp_in_csv_not_in_dir r') = [''e.p'']
                \<and> map snd (rp_in_dir_not_in_csv r') = [''z.p''])"
proof -
  have five: "py_int ''5'' = Some 5"
    by (simp add: py_int_def py_nat_def is_space_def is_digit_def digit_val_def)
  obtain r' where ret: "verify_ktatrova True ex_dir_docs ex_merged_csv ex_ledger ex_ledger
                          (Reporter_init (Some ''1'')) = Inr r'"
    unfolding verify_ktatrova_def Let_def
    by (simp add: ex_ledger_def CsvTikHolder_init_def five COMPLETED_def MISMATCH_def)
  have fd: "filter (\<lambda>x. \<not> str_in FILE_PREFIX x) ex_dir_docs = [''a.p'', ''b.p'', ''c.p'', ''d.p'', ''z.p'']"
    by (simp add: FILE_PREFIX_def ex_dir_docs_def)
  have docs: "dh_document ex_merged_csv = [''a.p'', ''b.p'', ''c.p'', ''d.p'', ''e.p'']"
    by (simp add: ex_merged_csv_def)
  have s: "set [''a.p'', ''b.p'', ''c.p'', ''d.p'', ''z.p'']
             = set [''a.p'', ''b.p'', ''c.p'', ''d.p'', ''e.p''] - {''e.p''} \<union> {''z.p''}"
    by auto
  show ?thesis
    using verify_ktatrova_discrepancies [OF ret, of "''e.p''" "''z.p''"] s
    unfolding ret fd docs by simp
qed

section \<open>The merged report\<close>

lemma fold_merge_one_fields:
  "rp_gush_chelka_received (fold merge_one rs m)
     = rp_gush_chelka_received m + sum_list (map rp_gush_chelka_received rs)
   \<and> rp_tiks_received (fold merge_one rs m) = rp_tiks_received m + sum_list (map rp_tiks_received rs)
   \<and> rp_docs_in_csv_count (fold merge_one rs m)
       = rp_docs_in_csv_count m + sum_list (map rp_docs_in_csv_count rs)
   \<and> rp_docs_in_dir_count (fold merge_one rs m)
       = rp_docs_in_dir_count m + sum_list (map rp_docs_in_dir_count rs)
   \<and> rp_docs_in_web_count (fold merge_one rs m)
       = rp_docs_in_web_count m + sum_list (map rp_docs_in_web_count rs)
   \<and> rp_completed (fold merge_one rs m) = rp_completed m @ concat (map rp_completed rs)
   \<and> rp_mismatches (fold merge_one rs m) = rp_mismatches m @ concat (map rp_mismatches rs)
   \<and> rp_waiting (fold merge_one rs m) = rp_waiting m @ concat (map rp_waiting rs)
   \<and> rp_in_csv_not_in_dir (fold merge_one rs m)
       = rp_in_csv_not_in_dir m @ concat (map rp_in_csv_not_in_dir rs)
   \<and> rp_in_dir_not_in_csv (fold merge_one rs m)
       = rp_in_dir_not_in_csv m @ concat (map rp_in_dir_not_in_csv rs)"
  by (induction rs arbitrary: m) (simp_all add: merge_one_def)

lemma fold_merge_one_untouched:
  "rp_gushes (fold merge_one rs m) = rp_gushes m
   \<and> rp_chelkas (fold merge_one rs m) = rp_chelkas m
   \<and> rp_ids (fold merge_one rs m) = rp_ids m
   \<and> rp_pages (fold merge_one rs m) = rp_pages m
   \<and> rp_row_nums (fold merge_one rs m) = rp_row_nums m
   \<and> rp_docs (fold merge_one rs m) = rp_docs m"
  by (induction rs arbitrary: m) (simp_all add: merge_one_def)

text \<open>
  Claim C8, as amended.  \<^verbatim>\<open>merge_reports\<close> sums the five numeric fields of
  the input reporters and concatenates their \<^verbatim>\<open>completed\<close>, \<^verbatim>\<open>mismatches\<close>,
  \<^verbatim>\<open>waiting\<close>, \<^verbatim>\<open>in_csv_not_in_dir\<close> and \<^verbatim>\<open>in_dir_not_in_csv\<close> lists; the
  other list fields of the merged reporter (\<^verbatim>\<open>gushes\<close>, \<^verbatim>\<open>chelkas\<close>, \<^verbatim>\<open>ids\<close>,
  \<^verbatim>\<open>pages\<close>, \<^verbatim>\<open>row_nums\<close>, \<^verbatim>\<open>docs\<close>) stay empty.  Merging reports with
  3 completed and 1 mismatch, and 2 completed and 0 mismatches, gives 5
  completed and 1 mismatch.
\<close>

theorem merge_reports_aggregates:
  "rp_gush_chelka_received (merge_reports rs) = sum_list (map rp_gush_chelka_received rs)
   \<and> rp_tiks_received (merge_reports rs) = sum_list (map rp_tiks_received rs)
   \<and> rp_docs_in_csv_count (merge_reports rs) = sum_list (map rp_docs_in_csv_count rs)
   \<and> rp_docs_in_dir_count (merge_reports rs) = sum_list (map rp_docs_in_dir_count rs)
   \<and> rp_docs_in_web_count (merge_reports rs) = sum_list (map rp_docs_in_web_count rs)
   \<and> rp_completed (merge_reports rs) = concat (map rp_completed rs)
   \<and> rp_mismatches (merge_reports rs) = concat (map rp_mismatches rs)
   \<and> rp_waiting (merge_reports rs) = concat (map rp_waiting rs)
   \<and> rp_in_csv_not_in_dir (merge_reports rs) = concat (map rp_in_csv_not_in_dir rs)
   \<and> rp_in_dir_not_in_csv (merge_reports rs) = concat (map rp_in_dir_not_in_csv rs)
   \<and> rp_gushes (merge_reports rs) = [] \<and> rp_chelkas (merge_reports rs) = []
   \<and> rp_ids (merge_reports rs) = [] \<and> rp_pages (merge_reports rs) = []
   \<and> rp_row_nums (merge_reports rs) = [] \<and> rp_docs (merge_reports rs) = []
   \<and> (length (rp_completed r1) = 3 \<and> length (rp_mismatches r1) = 1
        \<and> length (rp_completed r2) = 2 \<and> length (rp_mismatches r2) = 0
      \<longrightarrow> length (rp_completed (merge_reports [r1, r2])) = 5
        \<and> length (rp_mismatches (merge_reports [r1, r2])) = 1)"
  unfolding merge_reports_def
  by (simp add: fold_merge_one_fields fold_merge_one_untouched Reporter_init_def merge_one_def)

theorem merge_reports_aggregates_witness:
  "length (rp_completed ex_report_1) = 3 \<and> length (rp_mismatches ex_report_1) = 1
   \<and> length (rp_completed ex_report_2) = 2 \<and> length (rp_mismatches ex_report_2) = 0
   \<and> length (rp_completed (merge_reports [ex_report_1, ex_report_2])) = 5
   \<and> length (rp_mismatches (merge_reports [ex_report_1, ex_report_2])) = 1"
proof -
  have h: "length (rp_completed ex_report_1) = 3 \<and> length (rp_mismatches ex_report_1) = 1
           \<and> length (rp_completed ex_report_2) = 2 \<and> length (rp_mismatches ex_report_2) = 0"
    by (simp add: ex_report_1_def ex_report_2_def Reporter_init_def)
  show ?thesis
    using h merge_reports_aggregates [of "[]" ex_report_1 ex_report_2] by blast
qed

theorem merge_reports_docs_counterexample:
  "rp_docs (merge_reports [ex_report_1]) \<noteq> concat (map rp_docs [ex_report_1])"
  by (simp add: merge_reports_def merge_one_def Reporter_init_def ex_report_1_def)

section \<open>The bounded wait\<close>





section \<open>Properties of the status update\<close>

lemma update_status_row_Some:
  assumes "update_status_row j fd dnc cnd h i = Some h1"
  shows "th_tik_id h1 = th_tik_id h"
    and "length (th_status h1) = length (th_status h)"
    and "length (th_docs_in_web h1) = length (th_docs_in_web h)"
    and "length (th_docs_in_csv h1) = length (th_docs_in_csv h)"
    and "length (th_docs_in_directory h1) = length (th_docs_in_directory h)"
    and "length (th_docs_in_dir_not_in_csv h1) = length (th_docs_in_dir_not_in_csv h)"
    and "length (th_docs_in_csv_not_in_dir h1) = length (th_docs_in_csv_not_in_dir h)"
    and "th_ktatrova h1 = th_ktatrova h" and "th_ms_gush h1 = th_ms_gush h"
    and "th_ms_chelka h1 = th_ms_chelka h" and "th_no_results h1 = th_no_results h"
    and "i < length (th_status h)" and "i < length (th_docs_in_web h)"
    and "i < length (th_docs_in_csv h)" and "i < length (th_docs_in_directory h)"
    and "i < length (th_docs_in_dir_not_in_csv h)"
    and "i < length (th_docs_in_csv_not_in_dir h)"
  using assms
  by (auto simp: update_status_row_def split: if_splits)

lemma update_status_row_other:
  assumes "update_status_row j fd dnc cnd h i = Some h1" "k \<noteq> i"
  shows "th_status h1 ! k = th_status h ! k"
    and "th_docs_in_web h1 ! k = th_docs_in_web h ! k"
    and "th_docs_in_csv h1 ! k = th_docs_in_csv h ! k"
    and "th_docs_in_directory h1 ! k = th_docs_in_directory h ! k"
    and "th_docs_in_dir_not_in_csv h1 ! k = th_docs_in_dir_not_in_csv h ! k"
    and "th_docs_in_csv_not_in_dir h1 ! k = th_docs_in_csv_not_in_dir h ! k"
  using assms
  by (auto simp: update_status_row_def split: if_splits)

lemma update_status_row_at:
  assumes "update_status_row j fd dnc cnd h i = Some h1"
  shows "th_status h1 ! i =
           (if 0 < docs_in_csv j \<and> docs_in_csv j = docs_in_web j
               \<and> docs_in_web j \<le> int (length fd) \<and> cnd = []
            then COMPLETED
            else if th_status h ! i \<noteq> COMPLETED then MISMATCH else th_status h ! i)"
    and "th_docs_in_web h1 ! i =
           (if th_docs_in_web h ! i = ''0'' \<and> docs_in_web j > 0
            then str (docs_in_web j) else th_docs_in_web h ! i)"
    and "th_docs_in_csv h1 ! i = str (docs_in_csv j)"
    and "th_docs_in_directory h1 ! i = str (int (length fd))"
    and "th_docs_in_dir_not_in_csv h1 ! i = str (int (length dnc))"
    and "th_docs_in_csv_not_in_dir h1 ! i = str (int (length cnd))"
  using assms
  by (auto simp: update_status_row_def split: if_splits)

lemma update_status_rows_frame:
  assumes "update_status_rows j fd dnc cnd idx h = Some h'"
  shows "th_tik_id h' = th_tik_id h \<and> th_ktatrova h' = th_ktatrova h
       \<and> th_ms_gush h' = th_ms_gush h \<and> th_ms_chelka h' = th_ms_chelka h
       \<and> th_no_results h' = th_no_results h
       \<and> length (th_status h') = length (th_status h)
       \<and> length (th_docs_in_web h') = length (th_docs_in_web h)
       \<and> length (th_docs_in_csv h') = length (th_docs_in_csv h)
       \<and> length (th_docs_in_directory h') = length (th_docs_in_directory h)
       \<and> length (th_docs_in_dir_not_in_csv h') = length (th_docs_in_dir_not_in_csv h)
       \<and> length (th_docs_in_csv_not_in_dir h') = length (th_docs_in_csv_not_in_dir h)"
  using assms
proof (induction idx arbitrary: h)
  case Nil
  then show ?case by simp
next
  case (Cons a idx)
  then obtain h1 where one: "update_status_row j fd dnc cnd h a = Some h1"
    and rest: "update_status_rows j fd dnc cnd idx h1 = Some h'"
    by (auto split: option.splits)
  from Cons.IH [OF rest] update_status_row_Some [OF one] show ?case by simp
qed

lemma update_status_rows_other:
  assumes "update_status_rows j fd dnc cnd idx h = Some h'" "k \<notin> set idx"
  shows "th_status h' ! k = th_status h ! k
       \<and> th_docs_in_web h' ! k = th_docs_in_web h ! k
       \<and> th_docs_in_csv h' ! k = th_docs_in_csv h ! k
       \<and> th_docs_in_directory h' ! k = th_docs_in_directory h ! k
       \<and> th_docs_in_dir_not_in_csv h' ! k = th_docs_in_dir_not_in_csv h ! k
       \<and> th_docs_in_csv_not_in_dir h' ! k = th_docs_in_csv_not_in_dir h ! k"
  using assms
proof (induction idx arbitrary: h)
  case Nil
  then show ?case by simp
next
  case (Cons a idx)
  then obtain h1 where one: "update_status_row j fd dnc cnd h a = Some h1"
    and rest: "update_status_rows j fd dnc cnd idx h1 = Some h'"
    by (auto split: option.splits)
  from Cons.prems have "k \<noteq> a" "k \<notin> set idx" by auto
  with Cons.IH [OF rest] update_status_row_other [OF one] show ?case by simp
qed

lemma update_status_rows_at:
  assumes "update_status_rows j fd dnc cnd idx h = Some h'" "distinct idx" "i \<in> set idx"
  shows "th_status h' ! i =
           (if 0 < docs_in_csv j \<and> docs_in_csv j = docs_in_web j
               \<and> docs_in_web j \<le> int (length fd) \<and> cnd = []
            then COMPLETED
            else if th_status h ! i \<noteq> COMPLETED then MISMATCH else th_status h ! i)
       \<and> th_docs_in_web h' ! i =
           (if th_docs_in_web h ! i = ''0'' \<and> docs_in_web j > 0
            then str (docs_in_web j) else th_docs_in_web h ! i)
       \<and> th_docs_in_csv h' ! i = str (docs_in_csv j)
       \<and> th_docs_in_directory h' ! i = str (int (length fd))
       \<and> th_docs_in_dir_not_in_csv h' ! i = str (int (length dnc))
       \<and> th_docs_in_csv_not_in_dir h' ! i = str (int (length cnd))"
  using assms
proof (induction idx arbitrary: h)
  case Nil
  then show ?case by simp
next
  case (Cons a idx)
  then obtain h1 where one: "update_status_row j fd dnc cnd h a = Some h1"
    and rest: "update_status_rows j fd dnc cnd idx h1 = Some h'"
    by (auto split: option.splits)
  show ?case
  proof (cases "i = a")
    case True
    with Cons.prems have "i \<notin> set idx" by simp
    from update_status_rows_other [OF rest this] update_status_row_at [OF one] True
    show ?thesis by simp
  next
    case False
    with Cons.prems have "i \<in> set idx" "distinct idx" by simp_all
    from Cons.IH [OF rest this(2) this(1)] update_status_row_other [OF one False]
    show ?thesis by simp
  qed
qed

lemma duplicated_tiks_set:
  "distinct (duplicated_tiks j h)
   \<and> set (duplicated_tiks j h) = {i. i < length (th_tik_id h) \<and> th_tik_id h ! i = tik_id j}"
  by (auto simp: duplicated_tiks_def)

text \<open>
  What \<^verbatim>\<open>update_status_csv\<close> leaves in the ledger: a row with the job's id
  gets the job's counts and the status decision; every other row keeps its six
  cells; the key columns and the column lengths stay.
\<close>

lemma update_status_csv_row:
  assumes "update_status_csv j w = Some w'"
    and "i < length (th_tik_id (status_csv w))" "th_tik_id (status_csv w) ! i = tik_id j"
  shows "th_status (status_csv w') ! i =
           (if 0 < docs_in_csv j \<and> docs_in_csv j = docs_in_web j
               \<and> docs_in_web j \<le> int (length (filtered_dir_docs_of j w))
               \<and> docs_in_csv_not_in_dir_of j w = []
            then COMPLETED
            else if th_status (status_csv w) ! i \<noteq> COMPLETED then MISMATCH
            else th_status (status_csv w) ! i)
       \<and> th_docs_in_web (status_csv w') ! i =
           (if th_docs_in_web (status_csv w) ! i = ''0'' \<and> docs_in_web j > 0
            then str (docs_in_web j) else th_docs_in_web (status_csv w) ! i)
       \<and> th_docs_in_csv (status_csv w') ! i = str (docs_in_csv j)
       \<and> th_docs_in_directory (status_csv w') ! i = str (int (length (filtered_dir_docs_of j w)))
       \<and> th_docs_in_dir_not_in_csv (status_csv w') ! i
           = str (int (length (docs_in_dir_not_in_csv_of j w)))
       \<and> th_docs_in_csv_not_in_dir (status_csv w') ! i
           = str (int (length (docs_in_csv_not_in_dir_of j w)))"
proof -
  from assms(1) obtain h where
    rows: "update_status_rows j (filtered_dir_docs_of j w) (docs_in_dir_not_in_csv_of j w)
             (docs_in_csv_not_in_dir_of j w) (duplicated_tiks j (status_csv w)) (status_csv w) = Some h"
    and h: "status_csv w' = h"
    by (auto simp: update_status_csv_def split: option.splits)
  have "i \<in> set (duplicated_tiks j (status_csv w))"
    using assms(2,3) duplicated_tiks_set by simp
  from update_status_rows_at [OF rows _ this] duplicated_tiks_set show ?thesis
    unfolding h by blast
qed

lemma update_status_csv_other:
  assumes "update_status_csv j w = Some w'"
    and "i < length (th_tik_id (status_csv w))" "th_tik_id (status_csv w) ! i \<noteq> tik_id j"
  shows "th_status (status_csv w') ! i = th_status (status_csv w) ! i
       \<and> th_docs_in_web (status_csv w') ! i = th_docs_in_web (status_csv w) ! i
       \<and> th_docs_in_csv (status_csv w') ! i = th_docs_in_csv (status_csv w) ! i
       \<and> th_docs_in_directory (status_csv w') ! i = th_docs_in_directory (status_csv w) ! i
       \<and> th_docs_in_dir_not_in_csv (status_csv w') ! i
           = th_docs_in_dir_not_in_csv (status_csv w) ! i
       \<and> th_docs_in_csv_not_in_dir (status_csv w') ! i
           = th_docs_in_csv_not_in_dir (status_csv w) ! i"
proof -
  from assms(1) obtain h where
    rows: "update_status_rows j (filtered_dir_docs_of j w) (docs_in_dir_not_in_csv_of j w)
             (docs_in_csv_not_in_dir_of j w) (duplicated_tiks j (status_csv w)) (status_csv w) = Some h"
    and h: "status_csv w' = h"
    by (auto simp: update_status_csv_def split: option.splits)
  have "i \<notin> set (duplicated_tiks j (status_csv w))"
    using assms(3) duplicated_tiks_set by simp
  from update_status_rows_other [OF rows this] show ?thesis
    unfolding h by blast
qed

lemma update_status_csv_frame:
  assumes "update_status_csv j w = Some w'"
  shows "th_tik_id (status_csv w') = th_tik_id (status_csv w)
       \<and> th_ktatrova (status_csv w') = th_ktatrova (status_csv w)
       \<and> files w' = files w \<and> queue w' = queue w
       \<and> th_rows (status_csv w') \<noteq> None
       \<and> status_file w' =
           (if th_ktatrova (status_csv w) = [] then status_file w
            else th_rows (status_csv w'))"
proof -
  from assms obtain h f where
    rows: "update_status_rows j (filtered_dir_docs_of j w) (docs_in_dir_not_in_csv_of j w)
             (docs_in_csv_not_in_dir_of j w) (duplicated_tiks j (status_csv w)) (status_csv w) = Some h"
    and f: "CsvTikHolder_to_csv h (status_file w) = Some f"
    and w': "w' = w\<lparr>status_csv := h, status_file := f\<rparr>"
    by (auto simp: update_status_csv_def split: option.splits)
  from update_status_rows_frame [OF rows] f show ?thesis
    unfolding w'
    by (auto simp: CsvTikHolder_to_csv_def th_rows_def split: option.splits if_splits)
qed

section \<open>Evaluating the example\<close>

lemma str_small: "str 0 = ''0''" "str 1 = ''1''" "str 2 = ''2''" "str 3 = ''3''"
  by (simp_all add: str_def str_nat.simps digit_char_def)

lemma status_names: "COMPLETED \<noteq> MISMATCH" "MISMATCH \<noteq> COMPLETED" "[] \<noteq> COMPLETED"
  by (simp_all add: COMPLETED_def MISMATCH_def)

lemma ex_job_docs: "dh_document (res_csv ex_job) = [''output/1/T1/a.pdf'']"
  by (simp add: ex_job_def GushChelka_init_def CsvDocHolder_add_def create_record_def
        CsvDocHolder_init_def)

lemma ex_job_fields:
  "tik_id ex_job = ''T1''" "docs_in_csv ex_job = 1" "docs_in_web ex_job = 1"
  "res_dir ex_job = ''output/1/T1''" "status_index ex_job = 0"
  by (simp_all add: ex_job_def GushChelka_init_def)

lemma ex_extra_file_listing:
  "filtered_dir_docs_of ex_job ex_world_extra_file = [''output/1/T1/a.pdf'', ''output/1/T1/z.pdf'']"
  by (simp add: filtered_dir_docs_of_def glob_dir_def in_dir_star_dot_star_def ex_job_fields
        ex_world_extra_file_def FILE_PREFIX_def)

lemma ex_was_mismatch_listing:
  "filtered_dir_docs_of ex_job ex_world_was_mismatch = [''output/1/T1/a.pdf'']"
  by (simp add: filtered_dir_docs_of_def glob_dir_def in_dir_star_dot_star_def ex_job_fields
        ex_world_was_mismatch_def FILE_PREFIX_def)

lemma ex_two_parcels_listing:
  "filtered_dir_docs_of ex_job ex_world_two_parcels = []"
  by (simp add: filtered_dir_docs_of_def glob_dir_def ex_world_two_parcels_def)

lemma ex_extra_file_update:
  "map_option (\<lambda>w'. th_row (status_csv w') 0) (update_status_csv ex_job ex_world_extra_file)
     = Some [''1'', ''100'', ''5'', ''T1'', ''completed'', [], ''1'', ''2'', ''1'', ''0'', ''1'']"
  unfolding update_status_csv_def docs_in_dir_not_in_csv_of_def docs_in_csv_not_in_dir_of_def
    ex_extra_file_listing ex_job_docs
  by (simp add: duplicated_tiks_def update_status_row_def ex_world_extra_file_def
        ex_row_ledger_def CsvTikHolder_init_def CsvTikHolder_to_csv_def th_rows_def
        columns_cover_def th_row_def str_small COMPLETED_def MISMATCH_def ex_job_fields)

lemma ex_was_mismatch_update:
  "map_option (\<lambda>w'. th_row (status_csv w') 0) (update_status_csv ex_job ex_world_was_mismatch)
     = Some [''1'', ''100'', ''5'', ''T1'', ''completed'', [], ''1'', ''1'', ''1'', ''0'', ''0'']"
  unfolding update_status_csv_def docs_in_dir_not_in_csv_of_def docs_in_csv_not_in_dir_of_def
    ex_was_mismatch_listing ex_job_docs
  by (simp add: duplicated_tiks_def update_status_row_def ex_world_was_mismatch_def
        ex_row_ledger_def CsvTikHolder_init_def CsvTikHolder_to_csv_def th_rows_def
        columns_cover_def th_row_def str_small COMPLETED_def MISMATCH_def ex_job_fields)

lemma ex_two_parcels_update:
  "map_option (\<lambda>w'. (th_row (status_csv w') 0, th_row (status_csv w') 1))
       (update_status_csv ex_job ex_world_two_parcels)
     = Some ([''1'', ''100'', ''5'', ''T1'', ''completed'', [], ''1'', ''0'', ''3'', ''1'', ''0''],
             [''1'', ''100'', ''6'', ''T1'', ''mismatch'', [], ''1'', ''0'', ''1'', ''1'', ''0''])"
  unfolding update_status_csv_def docs_in_dir_not_in_csv_of_def docs_in_csv_not_in_dir_of_def
    ex_two_parcels_listing ex_job_docs
  by (simp add: duplicated_tiks_def update_status_row_def ex_world_two_parcels_def
        CsvTikHolder_init_def CsvTikHolder_to_csv_def th_rows_def
        columns_cover_def th_row_def str_small COMPLETED_def MISMATCH_def ex_job_fields
        upt_rec [of 0 2] upt_rec [of 1 2])

section \<open>The completion rule\<close>

text \<open>
  Claim C1, as amended.  For a ledger row with the job's case id,
  \<^verbatim>\<open>update_status_csv\<close> leaves the status \<^verbatim>\<open>completed\<close> exactly when the row
  was \<^verbatim>\<open>completed\<close> before or \<open>0 < docs_in_csv = docs_in_web \<le>\<close> the number of
  files in the directory and no recorded document is missing from the
  directory.  A row that becomes \<^verbatim>\<open>completed\<close> in the update has
  \<^verbatim>\<open>docs_in_csv\<close> equal to the job's \<^verbatim>\<open>docs_in_web\<close> (and to the row's
  \<^verbatim>\<open>docs_in_web\<close> when that was \<open>0\<close> before), \<^verbatim>\<open>docs_in_csv_not_in_dir\<close> equal
  to 0 and \<^verbatim>\<open>docs_in_directory\<close> at least as large.
\<close>

theorem update_status_csv_completion_rule:
  assumes "update_status_csv j w = Some w'"
    and "i < length (th_tik_id (status_csv w))" "th_tik_id (status_csv w) ! i = tik_id j"
  shows "(th_status (status_csv w') ! i = COMPLETED) =
           (th_status (status_csv w) ! i = COMPLETED
            \<or> 0 < docs_in_csv j \<and> docs_in_csv j = docs_in_web j
              \<and> docs_in_web j \<le> int (length (filtered_dir_docs_of j w))
              \<and> docs_in_csv_not_in_dir_of j w = [])
       \<and> (th_status (status_csv w) ! i \<noteq> COMPLETED \<and> th_status (status_csv w') ! i = COMPLETED
          \<longrightarrow> th_docs_in_csv (status_csv w') ! i = str (docs_in_web j)
            \<and> th_docs_in_csv_not_in_dir (status_csv w') ! i = str 0
            \<and> th_docs_in_directory (status_csv w') ! i
                = str (int (length (filtered_dir_docs_of j w)))
            \<and> docs_in_web j \<le> int (length (filtered_dir_docs_of j w))
            \<and> (th_docs_in_web (status_csv w) ! i = ''0''
                 \<longrightarrow> th_docs_in_web (status_csv w') ! i = th_docs_in_csv (status_csv w') ! i))"
  using update_status_csv_row [OF assms] status_names
  by (auto split: if_splits)

theorem update_status_csv_completion_rule_witness:
  "(case update_status_csv ex_job ex_world_was_mismatch of
      None \<Rightarrow> False
    | Some w' \<Rightarrow>
        th_status (status_csv ex_world_was_mismatch) ! 0 \<noteq> COMPLETED
      \<and> th_status (status_csv w') ! 0 = COMPLETED
      \<and> th_docs_in_csv (status_csv w') ! 0 = str (docs_in_web ex_job)
      \<and> th_docs_in_csv_not_in_dir (status_csv w') ! 0 = str 0
      \<and> docs_in_web ex_job \<le> int (length (filtered_dir_docs_of ex_job ex_world_was_mismatch)))"
proof -
  obtain w' where ret: "update_status_csv ex_job ex_world_was_mismatch = Some w'"
    using ex_was_mismatch_update by (cases "update_status_csv ex_job ex_world_was_mismatch") auto
  have row: "th_row (status_csv w') 0
               = [''1'', ''100'', ''5'', ''T1'', ''completed'', [], ''1'', ''1'', ''1'', ''0'', ''0'']"
    using ex_was_mismatch_update unfolding ret by simp
  have i: "0 < length (th_tik_id (status_csv ex_world_was_mismatch))"
    and t: "th_tik_id (status_csv ex_world_was_mismatch) ! 0 = tik_id ex_job"
    and before: "th_status (status_csv ex_world_was_mismatch) ! 0 \<noteq> COMPLETED"
    by (simp_all add: ex_world_was_mismatch_def ex_row_ledger_def ex_job_fields COMPLETED_def)
  have after: "th_status (status_csv w') ! 0 = COMPLETED"
    using row by (simp add: th_row_def COMPLETED_def)
  show ?thesis
    using update_status_csv_completion_rule [OF ret i t] before after
    unfolding ret by simp
qed

theorem completed_with_extra_file_counterexample:
  "map_option (\<lambda>w'. (th_status (status_csv w') ! 0, th_docs_in_csv (status_csv w') ! 0,
                      th_docs_in_web (status_csv w') ! 0, th_docs_in_directory (status_csv w') ! 0,
                      th_docs_in_dir_not_in_csv (status_csv w') ! 0))
       (update_status_csv ex_job ex_world_extra_file)
     = Some (COMPLETED, ''1'', ''1'', ''2'', ''1'')"
  using ex_extra_file_update
  by (cases "update_status_csv ex_job ex_world_extra_file") (simp_all add: th_row_def COMPLETED_def)

section \<open>Which status is sticky\<close>

text \<open>
  Claim C3, as amended.  It is \<^verbatim>\<open>completed\<close> that no later evaluation changes.
  A row that is \<^verbatim>\<open>mismatch\<close> becomes \<^verbatim>\<open>completed\<close> when a later
  \<^verbatim>\<open>update_status_csv\<close> for its case finds the completion rule satisfied, and
  stays \<^verbatim>\<open>mismatch\<close> otherwise; rows of other cases keep their status.
\<close>

theorem completed_is_sticky:
  assumes "update_status_csv j w = Some w'"
    and "i < length (th_tik_id (status_csv w))"
  shows "(th_status (status_csv w) ! i = COMPLETED \<longrightarrow> th_status (status_csv w') ! i = COMPLETED)
       \<and> (th_status (status_csv w) ! i = MISMATCH \<and> th_tik_id (status_csv w) ! i = tik_id j
          \<longrightarrow> th_status (status_csv w') ! i =
                (if 0 < docs_in_csv j \<and> docs_in_csv j = docs_in_web j
                    \<and> docs_in_web j \<le> int (length (filtered_dir_docs_of j w))
                    \<and> docs_in_csv_not_in_dir_of j w = []
                 then COMPLETED else MISMATCH))
       \<and> (th_tik_id (status_csv w) ! i \<noteq> tik_id j
          \<longrightarrow> th_status (status_csv w') ! i = th_status (status_csv w) ! i)"
proof (cases "th_tik_id (status_csv w) ! i = tik_id j")
  case True
  from update_status_csv_row [OF assms True] status_names show ?thesis
    using True by (auto split: if_splits)
next
  case False
  from update_status_csv_other [OF assms False] show ?thesis
    using False by simp
qed

theorem completed_is_sticky_witness:
  "(case update_status_csv ex_job ex_world_two_parcels of
      None \<Rightarrow> False
    | Some w' \<Rightarrow>
        th_status (status_csv ex_world_two_parcels) ! 0 = COMPLETED
      \<and> th_status (status_csv w') ! 0 = COMPLETED)
   \<and> (case update_status_csv ex_job ex_world_was_mismatch of
      None \<Rightarrow> False
    | Some w' \<Rightarrow>
        th_status (status_csv ex_world_was_mismatch) ! 0 = MISMATCH
      \<and> th_tik_id (status_csv ex_world_was_mismatch) ! 0 = tik_id ex_job
      \<and> th_status (status_csv w') ! 0 = COMPLETED)"
proof -
  obtain w1 where r1: "update_status_csv ex_job ex_world_two_parcels = Some w1"
    using ex_two_parcels_update by (cases "update_status_csv ex_job ex_world_two_parcels") auto
  obtain w2 where r2: "update_status_csv ex_job ex_world_was_mismatch = Some w2"
    using ex_was_mismatch_update by (cases "update_status_csv ex_job ex_world_was_mismatch") auto
  have a1: "0 < length (th_tik_id (status_csv ex_world_two_parcels))"
    and b1: "th_status (status_csv ex_world_two_parcels) ! 0 = COMPLETED"
    by (simp_all add: ex_world_two_parcels_def COMPLETED_def)
  have a2: "0 < length (th_tik_id (status_csv ex_world_was_mismatch))"
    and b2: "th_status (status_csv ex_world_was_mismatch) ! 0 = MISMATCH"
    and c2: "th_tik_id (status_csv ex_world_was_mismatch) ! 0 = tik_id ex_job"
    by (simp_all add: ex_world_was_mismatch_def ex_row_ledger_def ex_job_fields MISMATCH_def)
  have rule: "0 < docs_in_csv ex_job \<and> docs_in_csv ex_job = docs_in_web ex_job
      \<and> docs_in_web ex_job \<le> int (length (filtered_dir_docs_of ex_job ex_world_was_mismatch))
      \<and> docs_in_csv_not_in_dir_of ex_job ex_world_was_mismatch = []"
    by (simp add: docs_in_csv_not_in_dir_of_def ex_was_mismatch_listing ex_job_docs ex_job_fields)
  show ?thesis
    using completed_is_sticky [OF r1 a1] completed_is_sticky [OF r2 a2] b1 b2 c2 rule
    unfolding r1 r2 by simp
qed

theorem mismatch_not_sticky_counterexample:
  "th_status (status_csv ex_world_was_mismatch) ! 0 = MISMATCH
   \<and> map_option (\<lambda>w'. th_status (status_csv w') ! 0)
       (update_status_csv ex_job ex_world_was_mismatch) = Some COMPLETED"
  using ex_was_mismatch_update
  by (cases "update_status_csv ex_job ex_world_was_mismatch")
     (simp_all add: th_row_def COMPLETED_def MISMATCH_def ex_world_was_mismatch_def
        ex_row_ledger_def)

section \<open>Rows that share a case\<close>

text \<open>
  Claim C10, as amended.  \<^verbatim>\<open>update_status_csv\<close> writes the same
  \<^verbatim>\<open>docs_in_csv\<close>, \<^verbatim>\<open>docs_in_directory\<close> and discrepancy counters to every
  ledger row with the job's case id.  \<^verbatim>\<open>docs_in_web\<close> is overwritten only on the
  rows that hold \<open>0\<close> (and only by a positive count), and the status becomes
  \<^verbatim>\<open>completed\<close> on all of them when the completion rule holds, while otherwise a
  \<^verbatim>\<open>completed\<close> row stays and every other row becomes \<^verbatim>\<open>mismatch\<close>.  So two
  such rows agree on \<^verbatim>\<open>docs_in_web\<close> and on the status afterwards when they
  agreed before; rows that differed before may differ afterwards.
\<close>

theorem update_status_csv_uniform:
  assumes "update_status_csv j w = Some w'"
    and "i < length (th_tik_id (status_csv w))" "th_tik_id (status_csv w) ! i = tik_id j"
    and "k < length (th_tik_id (status_csv w))" "th_tik_id (status_csv w) ! k = tik_id j"
  shows "th_docs_in_csv (status_csv w') ! i = th_docs_in_csv (status_csv w') ! k
       \<and> th_docs_in_directory (status_csv w') ! i = th_docs_in_directory (status_csv w') ! k
       \<and> th_docs_in_csv_not_in_dir (status_csv w') ! i
           = th_docs_in_csv_not_in_dir (status_csv w') ! k
       \<and> th_docs_in_dir_not_in_csv (status_csv w') ! i
           = th_docs_in_dir_not_in_csv (status_csv w') ! k
       \<and> th_docs_in_web (status_csv w') ! i =
           (if th_docs_in_web (status_csv w) ! i = ''0'' \<and> 0 < docs_in_web j
            then str (docs_in_web j) else th_docs_in_web (status_csv w) ! i)
       \<and> th_status (status_csv w') ! i =
           (if 0 < docs_in_csv j \<and> docs_in_csv j = docs_in_web j
               \<and> docs_in_web j \<le> int (length (filtered_dir_docs_of j w))
               \<and> docs_in_csv_not_in_dir_of j w = []
            then COMPLETED
            else if th_status (status_csv w) ! i \<noteq> COMPLETED then MISMATCH else COMPLETED)
       \<and> (th_docs_in_web (status_csv w) ! i = th_docs_in_web (status_csv w) ! k
          \<longrightarrow> th_docs_in_web (status_csv w') ! i = th_docs_in_web (status_csv w') ! k)
       \<and> (th_status (status_csv w) ! i = th_status (status_csv w) ! k
          \<longrightarrow> th_status (status_csv w') ! i = th_status (status_csv w') ! k)"
  using update_status_csv_row [OF assms(1,2,3)] update_status_csv_row [OF assms(1,4,5)]
  by simp

theorem update_status_csv_uniform_witness:
  "(case update_status_csv ex_job ex_world_two_parcels of
      None \<Rightarrow> False
    | Some w' \<Rightarrow>
        th_tik_id (status_csv ex_world_two_parcels) ! 0 = tik_id ex_job
      \<and> th_tik_id (status_csv ex_world_two_parcels) ! 1 = tik_id ex_job
      \<and> th_docs_in_csv (status_csv w') ! 0 = th_docs_in_csv (status_csv w') ! 1
      \<and> th_docs_in_directory (status_csv w') ! 0 = th_docs_in_directory (status_csv w') ! 1
      \<and> th_docs_in_csv_not_in_dir (status_csv w') ! 0
          = th_docs_in_csv_not_in_dir (status_csv w') ! 1
      \<and> th_docs_in_dir_not_in_csv (status_csv w') ! 0
          = th_docs_in_dir_not_in_csv (status_csv w') ! 1)"
proof -
  obtain w' where ret: "update_status_csv ex_job ex_world_two_parcels = Some w'"
    using ex_two_parcels_update by (cases "update_status_csv ex_job ex_world_two_parcels") auto
  have a: "0 < length (th_tik_id (status_csv ex_world_two_parcels))"
    and b: "th_tik_id (status_csv ex_world_two_parcels) ! 0 = tik_id ex_job"
    and c: "1 < length (th_tik_id (status_csv ex_world_two_parcels))"
    and d: "th_tik_id (status_csv ex_world_two_parcels) ! 1 = tik_id ex_job"
    by (simp_all add: ex_world_two_parcels_def ex_job_fields)
  show ?thesis
    using update_status_csv_uniform [OF ret a b c d] b d
    unfolding ret by simp
qed

theorem rows_of_one_case_differ_counterexample:
  "th_tik_id (status_csv ex_world_two_parcels) ! 0 = th_tik_id (status_csv ex_world_two_parcels) ! 1
   \<and> map_option (\<lambda>w'. (th_status (status_csv w') ! 0, th_status (status_csv w') ! 1,
                        th_docs_in_web (status_csv w') ! 0, th_docs_in_web (status_csv w') ! 1))
       (update_status_csv ex_job ex_world_two_parcels)
     = Some (COMPLETED, MISMATCH, ''3'', ''1'')"
  using ex_two_parcels_update
  by (cases "update_status_csv ex_job ex_world_two_parcels")
     (simp_all add: th_row_def COMPLETED_def MISMATCH_def ex_world_two_parcels_def)

section \<open>Evaluating the table walk\<close>

lemma ex_fresh_job_fields:
  "tik_id ex_fresh_job = ''T1''" "docs_in_csv ex_fresh_job = 0" "docs_in_web ex_fresh_job = 0"
  "res_dir ex_fresh_job = ''output/1/T1''" "status_index ex_fresh_job = 0"
  "start_idx ex_fresh_job = 0" "current_row ex_fresh_job = 0" "current_page ex_fresh_job = 0"
  "dh_document (res_csv ex_fresh_job) = []"
  by (simp_all add: ex_fresh_job_def update_fields_def Let_def GushChelka_init_def make_key_def
        RESULTS_DIR_def os_path_join_def ex_row_ledger_def CsvTikHolder_init_def
        CsvDocHolder_init_def)

lemma ex_world_fresh_in_sync: "status_file ex_world_fresh = th_rows (status_csv ex_world_fresh)"
  by (simp add: ex_world_fresh_def ex_row_ledger_def th_rows_def columns_cover_def th_row_def
        CsvTikHolder_init_def)

lemma ex_row_unflushed:
  "(case handle_table_row (ex_doc_row ''a.pdf'' False) ex_fresh_job ex_world_fresh of
      Done j' w' \<Rightarrow>
        th_docs_in_csv (status_csv w') = [''1'']
      \<and> status_file w' = Some [[''1'', ''100'', ''5'', ''T1'', [], [], ''0'', ''0'', ''0'', ''0'', ''0'']]
      \<and> th_rows (status_csv w')
          = Some [[''1'', ''100'', ''5'', ''T1'', [], [], ''1'', ''0'', ''0'', ''0'', ''0'']]
    | Raised f j' w' \<Rightarrow> False)"
  by (simp add: handle_table_row_def Let_def ex_doc_row_def PDFBTN_def ex_fresh_job_fields
        py_set_def py_index_def ex_world_fresh_def ex_row_ledger_def CsvTikHolder_init_def
        str_small os_path_exists_def th_rows_def columns_cover_def th_row_def)


section \<open>Saving the ledger\<close>

lemma CsvTikHolder_add_length:
  "CsvTikHolder_add h r = Some h' \<Longrightarrow> length (th_ktatrova h') = Suc (length (th_ktatrova h))"
  by (auto simp: CsvTikHolder_add_def add_next_key_def Let_def split: if_splits)

lemma CsvTikHolder_extend_length:
  "CsvTikHolder_extend h rs = Some h' \<Longrightarrow>
     length (th_ktatrova h') = length (th_ktatrova h) + length rs"
  by (induction rs arbitrary: h) (auto split: option.splits dest: CsvTikHolder_add_length)

lemma to_csv_writes:
  "CsvTikHolder_to_csv h file = Some f \<Longrightarrow> th_ktatrova h \<noteq> [] \<Longrightarrow>
     f = th_rows h \<and> f \<noteq> None"
  by (auto simp: CsvTikHolder_to_csv_def th_rows_def split: option.splits if_splits)

lemma add_status_records_saved:
  assumes "add_status_records j w = Some w'"
  shows "status_file w' = th_rows (status_csv w') \<and> status_file w' \<noteq> None"
proof -
  define records where
    "records = (if tik_ids j = []
             then [create_status_record (ktatrova j) (gush j) (chelka j) [] COMPLETED NO_RESULTS]
             else map (\<lambda>t. create_status_record (ktatrova j) (gush j) (chelka j) t [] [])
                    (tik_ids j))"
  have unfolded: "add_status_records j w =
      (case CsvTikHolder_extend (status_csv w) records of
         None \<Rightarrow> None
       | Some h \<Rightarrow>
           (case CsvTikHolder_to_csv h (status_file w) of
              None \<Rightarrow> None
            | Some f \<Rightarrow> Some (w\<lparr>status_csv := h, status_file := f\<rparr>)))"
    unfolding add_status_records_def records_def Let_def ..
  from assms obtain h f where
    ext: "CsvTikHolder_extend (status_csv w) records = Some h"
    and f: "CsvTikHolder_to_csv h (status_file w) = Some f"
    and w': "w' = w\<lparr>status_csv := h, status_file := f\<rparr>"
    unfolding unfolded by (auto split: option.splits)
  have "0 < length records" by (simp add: records_def)
  with CsvTikHolder_extend_length [OF ext] have "th_ktatrova h \<noteq> []"
    by auto
  from to_csv_writes [OF f this] show ?thesis unfolding w' by auto
qed

lemma handle_table_head_saved:
  assumes "handle_table_head pg j w = Done j' w'" "current_page j = 1" "start_idx j = 0"
    and "th_ktatrova (status_csv w) \<noteq> []"
  shows "status_file w' = th_rows (status_csv w')"
  using assms
  by (auto simp: handle_table_head_def Let_def split: option.splits dest!: to_csv_writes)

lemma handle_table_row_file:
  "handle_table_row tr j w = Done j' w' \<Longrightarrow> status_file w' = status_file w"
  by (auto simp: handle_table_row_def Let_def split: if_splits option.splits)

text \<open>
  Claim C4, as amended.  The ledger is saved at the end of
  \<^verbatim>\<open>add_status_records\<close> (new rows), in \<^verbatim>\<open>handle_table\<close> right after the
  declared count is stored, and at the end of every \<^verbatim>\<open>update_status_csv\<close>
  (status and counters): after each of them the persisted file holds the rows of
  the ledger in memory.  \<^verbatim>\<open>handle_table_row\<close> stores the new \<^verbatim>\<open>docs_in_csv\<close> in
  the ledger and leaves the file as it was; the change reaches the file with the
  next save.
\<close>

theorem ledger_saved_after_mutation:
  "(add_status_records j w = Some w'
      \<longrightarrow> status_file w' = th_rows (status_csv w') \<and> status_file w' \<noteq> None)
   \<and> (update_status_csv j w = Some w' \<and> th_ktatrova (status_csv w) \<noteq> []
      \<longrightarrow> status_file w' = th_rows (status_csv w') \<and> status_file w' \<noteq> None)
   \<and> (handle_table_head pg j w = Done j' w' \<and> current_page j = 1 \<and> start_idx j = 0
        \<and> th_ktatrova (status_csv w) \<noteq> []
      \<longrightarrow> status_file w' = th_rows (status_csv w'))
   \<and> (handle_table_row tr j w = Done j' w' \<longrightarrow> status_file w' = status_file w)"
proof -
  have a: "add_status_records j w = Some w'
             \<longrightarrow> status_file w' = th_rows (status_csv w') \<and> status_file w' \<noteq> None"
    using add_status_records_saved [of j w w'] by blast
  have b: "update_status_csv j w = Some w' \<and> th_ktatrova (status_csv w) \<noteq> []
             \<longrightarrow> status_file w' = th_rows (status_csv w') \<and> status_file w' \<noteq> None"
    using update_status_csv_frame [of j w w'] by simp
  have c: "handle_table_head pg j w = Done j' w' \<and> current_page j = 1 \<and> start_idx j = 0
             \<and> th_ktatrova (status_csv w) \<noteq> []
             \<longrightarrow> status_file w' = th_rows (status_csv w')"
    using handle_table_head_saved [of pg j w j' w'] by blast
  have d: "handle_table_row tr j w = Done j' w' \<longrightarrow> status_file w' = status_file w"
    using handle_table_row_file [of tr j w j' w'] by blast
  from a b c d show ?thesis by blast
qed

theorem ledger_saved_after_mutation_witness:
  "(case update_status_csv ex_job ex_world_was_mismatch of
      None \<Rightarrow> False
    | Some w' \<Rightarrow> th_ktatrova (status_csv ex_world_was_mismatch) \<noteq> []
               \<and> status_file w' = th_rows (status_csv w') \<and> status_file w' \<noteq> None)
   \<and> (case handle_table_row (ex_doc_row ''a.pdf'' False) ex_fresh_job ex_world_fresh of
        Done j' w' \<Rightarrow> status_file w' = status_file ex_world_fresh
      | Raised f j' w' \<Rightarrow> False)"
proof -
  obtain w1 where r1: "update_status_csv ex_job ex_world_was_mismatch = Some w1"
    using ex_was_mismatch_update by (cases "update_status_csv ex_job ex_world_was_mismatch") auto
  have ne: "th_ktatrova (status_csv ex_world_was_mismatch) \<noteq> []"
    by (simp add: ex_world_was_mismatch_def ex_row_ledger_def)
  obtain j2 w2 where r2: "handle_table_row (ex_doc_row ''a.pdf'' False) ex_fresh_job ex_world_fresh
                            = Done j2 w2"
    using ex_row_unflushed
    by (cases "handle_table_row (ex_doc_row ''a.pdf'' False) ex_fresh_job ex_world_fresh") auto
  have s1: "status_file w1 = th_rows (status_csv w1) \<and> status_file w1 \<noteq> None"
    using ledger_saved_after_mutation [where j = ex_job and w = ex_world_was_mismatch
        and w' = w1 and pg = blank_page and j' = ex_job and tr = "ex_doc_row ''a.pdf'' False"]
      r1 ne by blast
  have s2: "status_file w2 = status_file ex_world_fresh"
    using ledger_saved_after_mutation [where j = ex_fresh_job and w = ex_world_fresh
        and w' = w2 and pg = blank_page and j' = j2 and tr = "ex_doc_row ''a.pdf'' False"]
      r2 by blast
  have "th_ktatrova (status_csv ex_world_was_mismatch) \<noteq> []
          \<and> status_file w1 = th_rows (status_csv w1) \<and> status_file w1 \<noteq> None"
    using ne s1 by blast
  then show ?thesis
    unfolding r1 r2 option.case outcome.case using s2 by blast
qed

theorem row_count_not_flushed_counterexample:
  "status_file ex_world_fresh = th_rows (status_csv ex_world_fresh)
   \<and> (case handle_table_row (ex_doc_row ''a.pdf'' False) ex_fresh_job ex_world_fresh of
        Done j' w' \<Rightarrow>
          th_docs_in_csv (status_csv w') \<noteq> th_docs_in_csv (status_csv ex_world_fresh)
        \<and> status_file w' \<noteq> th_rows (status_csv w')
      | Raised f j' w' \<Rightarrow> False)"
proof -
  obtain j2 w2 where r2: "handle_table_row (ex_doc_row ''a.pdf'' False) ex_fresh_job ex_world_fresh
                            = Done j2 w2"
    using ex_row_unflushed
    by (cases "handle_table_row (ex_doc_row ''a.pdf'' False) ex_fresh_job ex_world_fresh") auto
  have before: "th_docs_in_csv (status_csv ex_world_fresh) = [''0'']"
    by (simp add: ex_world_fresh_def ex_row_ledger_def)
  have after: "th_docs_in_csv (status_csv w2) = [''1'']"
    and fl: "status_file w2 = Some [[''1'', ''100'', ''5'', ''T1'', [], [], ''0'', ''0'', ''0'', ''0'', ''0'']]"
    and rows: "th_rows (status_csv w2)
                 = Some [[''1'', ''100'', ''5'', ''T1'', [], [], ''1'', ''0'', ''0'', ''0'', ''0'']]"
    using ex_row_unflushed unfolding r2 outcome.case by blast+
  have "th_docs_in_csv (status_csv w2) \<noteq> th_docs_in_csv (status_csv ex_world_fresh)"
    unfolding before after by simp
  moreover have "status_file w2 \<noteq> th_rows (status_csv w2)"
    unfolding fl rows by simp
  ultimately show ?thesis
    unfolding r2 outcome.case using ex_world_fresh_in_sync by blast
qed

section \<open>The recorded and the declared count\<close>






section \<open>Progress of an attempt\<close>

lemma within_bound_Done [simp]:
  "within_bound M j (Done j' w') = (docs_in_csv j \<le> docs_in_csv j' \<and> docs_in_web j' \<le> M)"
  by (simp add: within_bound_def)

lemma within_bound_Raised [simp]:
  "within_bound M j (Raised f j' w') =
     (docs_in_csv j \<le> docs_in_csv j' \<and> docs_in_web j' \<le> M
      \<and> (f = DownloadFault \<longrightarrow> docs_in_csv j + 1 \<le> docs_in_csv j'))"
  by (simp add: within_bound_def)

lemma within_bound_from:
  "within_bound M j1 out \<Longrightarrow> docs_in_csv j \<le> docs_in_csv j1 \<Longrightarrow> within_bound M j out"
  by (cases out) auto

lemma update_fields_counts [simp]:
  "docs_in_csv (update_fields h j) = docs_in_csv j"
  "docs_in_web (update_fields h j) = docs_in_web j"
  by (simp_all add: update_fields_def Let_def split: option.splits)

lemma handle_table_row_progress:
  "handle_table_row tr j w = Done j' w' \<Longrightarrow>
     docs_in_csv j \<le> docs_in_csv j' \<and> docs_in_web j' = docs_in_web j"
  "handle_table_row tr j w = Raised f j' w' \<Longrightarrow>
     docs_in_csv j' = docs_in_csv j + 1 \<and> docs_in_web j' = docs_in_web j"
  by (auto simp: handle_table_row_def Let_def split: if_splits option.splits)

lemma handle_rows_progress:
  "(handle_rows rows j w = RowsDone j' w' \<or> handle_rows rows j w = BackBtn j' w'
      \<longrightarrow> docs_in_csv j \<le> docs_in_csv j' \<and> docs_in_web j' = docs_in_web j)
   \<and> (handle_rows rows j w = RowsRaised f j' w'
      \<longrightarrow> docs_in_csv j + 1 \<le> docs_in_csv j' \<and> docs_in_web j' = docs_in_web j)"
proof (induction rows arbitrary: j w)
  case Nil
  then show ?case by simp
next
  case (Cons tr rows)
  show ?case
  proof (cases "handle_table_row tr (j\<lparr>current_row := current_row j + 1\<rparr>) w")
    case (Done j1 w1)
    from handle_table_row_progress(1) [OF Done]
    have step: "docs_in_csv j \<le> docs_in_csv j1" "docs_in_web j1 = docs_in_web j"
      by simp_all
    show ?thesis
    proof (cases "back_btn tr")
      case True
      with Done step show ?thesis by auto
    next
      case False
      with Done have "handle_rows (tr # rows) j w = handle_rows rows j1 w1" by simp
      with Cons.IH [of j1 w1] step show ?thesis by auto
    qed
  next
    case (Raised f1 j1 w1)
    from handle_table_row_progress(2) [OF Raised]
    have "docs_in_csv j1 = docs_in_csv j + 1" "docs_in_web j1 = docs_in_web j"
      by simp_all
    with Raised show ?thesis by auto
  qed
qed

lemma handle_table_head_progress:
  "handle_table_head pg j w = Done j' w' \<Longrightarrow>
     docs_in_csv j' = docs_in_csv j \<and> start_idx j' = start_idx j
     \<and> (docs_in_web j' = docs_in_web j \<or> docs_in_web j' = web_count pg)"
  "handle_table_head pg j w = Raised f j' w' \<Longrightarrow>
     f = IndexError \<and> docs_in_csv j' = docs_in_csv j
     \<and> (docs_in_web j' = docs_in_web j \<or> docs_in_web j' = web_count pg)"
  by (auto simp: handle_table_head_def Let_def split: if_splits option.splits)

lemma shown_page_bound:
  "\<forall>p\<in>set pages. web_count p \<le> M \<Longrightarrow> 0 \<le> M \<Longrightarrow>
     web_count (case pages of [] \<Rightarrow> blank_page | p # ps \<Rightarrow> p) \<le> M"
  by (cases pages) (simp_all add: blank_page_def)

lemma handle_table_progress:
  assumes "\<forall>p\<in>set pages. web_count p \<le> M" "0 \<le> M" "docs_in_web j \<le> M"
  shows "within_bound M j (handle_table pages j w)"
  using assms
proof (induction pages j w rule: handle_table.induct)
  case (1 pages j w)
  let ?pg = "case pages of [] \<Rightarrow> blank_page | p # ps \<Rightarrow> p"
  have pg: "web_count ?pg \<le> M"
    using "1.prems"(1,2) by (rule shown_page_bound)
  show ?case
  proof (cases "handle_table_head ?pg j w")
    case (Raised f1 j1 w1)
    from handle_table_head_progress(2) [OF Raised] pg "1.prems"(3)
    have "within_bound M j (Raised f1 j1 w1)" by auto
    with Raised show ?thesis by (subst handle_table.simps) simp
  next
    case (Done j1 w1)
    from handle_table_head_progress(1) [OF Done] pg "1.prems"(3)
    have j1: "docs_in_csv j1 = docs_in_csv j" "docs_in_web j1 \<le> M" by auto
    let ?rows = "handle_rows (py_slice_from (trs ?pg) (start_idx j1))
                   (j1\<lparr>current_row := start_idx j1\<rparr>) w1"
    show ?thesis
    proof (cases ?rows)
      case (RowsRaised f2 j2 w2)
      from handle_rows_progress [of "py_slice_from (trs ?pg) (start_idx j1)"
          "j1\<lparr>current_row := start_idx j1\<rparr>" w1 j2 w2 f2] RowsRaised j1
      have "within_bound M j (Raised f2 j2 w2)" by simp
      with Done RowsRaised show ?thesis by (subst handle_table.simps) simp
    next
      case (BackBtn j2 w2)
      from handle_rows_progress [of "py_slice_from (trs ?pg) (start_idx j1)"
          "j1\<lparr>current_row := start_idx j1\<rparr>" w1 j2 w2] BackBtn j1
      have j2: "docs_in_csv j \<le> docs_in_csv j2" "docs_in_web j2 \<le> M" by simp_all
      have "within_bound M (j2\<lparr>start_idx := current_row j2\<rparr>)
              (handle_table pages (j2\<lparr>start_idx := current_row j2\<rparr>) w2)"
        using "1.IH"(2) [OF Done BackBtn] "1.prems"(1,2) j2(2) by simp
      then have "within_bound M j (handle_table pages (j2\<lparr>start_idx := current_row j2\<rparr>) w2)"
        using j2(1) by (auto intro: within_bound_from)
      with Done BackBtn show ?thesis by (subst handle_table.simps) simp
    next
      case (RowsDone j2 w2)
      from handle_rows_progress [of "py_slice_from (trs ?pg) (start_idx j1)"
          "j1\<lparr>current_row := start_idx j1\<rparr>" w1 j2 w2] RowsDone j1
      have j2: "docs_in_csv j \<le> docs_in_csv j2" "docs_in_web j2 \<le> M" by simp_all
      let ?j3 = "update_fields (status_csv w2)
                   (j2\<lparr>current_page := current_page j2 + 1, start_idx := 0\<rparr>)"
      show ?thesis
      proof (cases "docs_in_web j2 < docs_in_csv j2 \<or> tl pages = []")
        case True
        with Done RowsDone j2 show ?thesis by (subst handle_table.simps) auto
      next
        case False
        then have more: "\<not> docs_in_web j2 < docs_in_csv j2" "tl pages \<noteq> []" by simp_all
        show ?thesis
        proof (cases "CsvTikHolder_to_csv (status_csv w2) (status_file w2)")
          case None
          with Done RowsDone more j2 show ?thesis by (subst handle_table.simps) simp
        next
          case (Some f3)
          have sub: "\<forall>p\<in>set (tl pages). web_count p \<le> M"
            using "1.prems"(1) by (cases pages) auto
          have "within_bound M ?j3 (handle_table (tl pages) ?j3 (w2\<lparr>status_file := f3\<rparr>))"
            using "1.IH"(1) [OF Done RowsDone more Some] sub "1.prems"(2) j2(2) by simp
          then have "within_bound M j (handle_table (tl pages) ?j3 (w2\<lparr>status_file := f3\<rparr>))"
            using j2(1) by (auto intro: within_bound_from)
          with Done RowsDone more Some show ?thesis by (subst handle_table.simps) simp
        qed
      qed
    qed
  qed
qed

lemma launch_pages:
  "launch_and_accept_policy env j = Some pages \<Longrightarrow> set pages \<subseteq> set (site env (tik_id j))"
  by (auto simp: launch_and_accept_policy_def split: if_splits dest: in_set_dropD)

lemma save_and_update_progress:
  "docs_in_csv j0 \<le> docs_in_csv j \<Longrightarrow> docs_in_web j \<le> M \<Longrightarrow>
     within_bound M j0 (save_and_update j w)"
  by (simp add: save_and_update_def split: option.splits)

lemma walk_then_save_progress:
  assumes "\<forall>p\<in>set pages. web_count p \<le> M" "0 \<le> M" "docs_in_web j \<le> M"
  shows "within_bound M j
           (case handle_table pages j w of
              Raised f j' w' \<Rightarrow> Raised f j' w'
            | Done j' w' \<Rightarrow> save_and_update j' w')"
proof (cases "handle_table pages j w")
  case (Done j' w')
  with handle_table_progress [OF assms, of w]
  have "docs_in_csv j \<le> docs_in_csv j'" "docs_in_web j' \<le> M" by simp_all
  then have "within_bound M j (save_and_update j' w')" by (rule save_and_update_progress)
  with Done show ?thesis by simp
next
  case (Raised f j' w')
  with handle_table_progress [OF assms, of w] show ?thesis by simp
qed

lemma resume_block_progress:
  assumes "\<forall>t. \<forall>p\<in>set (site env t). web_count p \<le> M" "0 \<le> M" "docs_in_web j \<le> M"
  shows "within_bound M j (resume_block env j w)"
proof (cases "launch_and_accept_policy env j")
  case None
  with assms(3) show ?thesis by (simp add: resume_block_def)
next
  case (Some pages)
  from launch_pages [OF Some] assms(1) have "\<forall>p\<in>set pages. web_count p \<le> M" by blast
  from walk_then_save_progress [OF this assms(2,3), of w] Some show ?thesis
    by (simp add: resume_block_def)
qed

lemma search_no_results_message_counts [simp]:
  "docs_in_csv (search_no_results_message env j) = docs_in_csv j"
  "docs_in_web (search_no_results_message env j) = docs_in_web j"
  by (simp_all add: search_no_results_message_def)

lemma get_tik_ids_counts [simp]:
  "docs_in_csv (get_tik_ids env j) = docs_in_csv j"
  "docs_in_web (get_tik_ids env j) = docs_in_web j"
  "tik_id (get_tik_ids env j) = tik_id j"
  by (simp_all add: get_tik_ids_def Let_def)

lemma fetch_case_progress:
  assumes "\<forall>p\<in>set pages. web_count p \<le> M" "0 \<le> M" "docs_in_web j \<le> M"
  shows "within_bound M j (fetch_case env pages j w)"
proof (cases "tik_id j \<noteq> [] \<and> no_results (search_no_results_message env j) \<noteq> NO_RESULTS")
  case True
  let ?j1 = "(search_no_results_message env j)\<lparr>current_page := 1\<rparr>"
  let ?w1 = "if tik_ids j \<noteq> [] then put_tiks_in_queue j w else w"
  have "within_bound M ?j1
          (case handle_table pages ?j1 ?w1 of
             Raised f j' w' \<Rightarrow> Raised f j' w'
           | Done j' w' \<Rightarrow> save_and_update j' w')"
    using assms by (intro walk_then_save_progress) simp_all
  then have "within_bound M j
          (case handle_table pages ?j1 ?w1 of
             Raised f j' w' \<Rightarrow> Raised f j' w'
           | Done j' w' \<Rightarrow> save_and_update j' w')"
    by (auto intro: within_bound_from)
  with True show ?thesis by (simp add: fetch_case_def Let_def)
next
  case False
  with assms(3) show ?thesis
    by (auto simp: fetch_case_def Let_def split: option.splits)
qed

lemma open_and_fetch_progress:
  assumes "\<forall>t. \<forall>p\<in>set (site env t). web_count p \<le> M" "0 \<le> M" "docs_in_web j \<le> M"
  shows "within_bound M j (open_and_fetch env j w)"
proof (cases "launch_and_accept_policy env j")
  case None
  with assms(3) show ?thesis by (simp add: open_and_fetch_def)
next
  case (Some pages)
  from launch_pages [OF Some] assms(1) have pages: "\<forall>p\<in>set pages. web_count p \<le> M" by blast
  show ?thesis
  proof (cases "tik_id j = []")
    case False
    with Some fetch_case_progress [OF pages assms(2,3), of env w] show ?thesis
      by (simp add: open_and_fetch_def)
  next
    case True
    let ?j1 = "get_tik_ids env j"
    show ?thesis
    proof (cases "add_status_records ?j1 w")
      case None
      with Some True assms(3) show ?thesis by (simp add: open_and_fetch_def Let_def)
    next
      case (Some w1)
      have "within_bound M ?j1 (fetch_case env pages ?j1 w1)"
        using pages assms(2,3) by (intro fetch_case_progress) simp_all
      then have "within_bound M j (fetch_case env pages ?j1 w1)"
        by (auto intro: within_bound_from)
      with \<open>launch_and_accept_policy env j = Some pages\<close> True Some assms(3) show ?thesis
        by (simp add: open_and_fetch_def Let_def)
    qed
  qed
qed

lemma get_indexes_from_status_counts:
  "get_indexes_from_status h j = Some j1 \<Longrightarrow>
     docs_in_csv j1 = docs_in_csv j \<and> docs_in_web j1 = docs_in_web j"
  by (auto simp: get_indexes_from_status_def split: option.splits if_splits)

lemma lookup_and_fetch_progress:
  assumes "\<forall>t. \<forall>p\<in>set (site env t). web_count p \<le> M" "0 \<le> M" "docs_in_web j \<le> M"
  shows "within_bound M j (lookup_and_fetch env j w)"
proof (cases "get_indexes_from_status (status_csv w) j")
  case None
  with assms(3) show ?thesis by (simp add: lookup_and_fetch_def)
next
  case (Some j1)
  from get_indexes_from_status_counts [OF Some]
  have j1: "docs_in_csv j1 = docs_in_csv j" "docs_in_web j1 = docs_in_web j" by simp_all
  show ?thesis
  proof (cases "uncompleted_tik_ids (status_csv w) (tik_indexes j1)")
    case None
    with Some j1 assms(3) show ?thesis by (simp add: lookup_and_fetch_def)
  next
    case (Some tids)
    define j2 where
      "j2 = (if tids \<noteq> []
             then update_fields (status_csv w) (j1\<lparr>tik_ids := tids, tik_id := hd tids\<rparr>)
             else j1)"
    define claimed where "claimed = claim_check (tik_id j2) (status_csv w)"
    have j2: "docs_in_csv j2 = docs_in_csv j" "docs_in_web j2 = docs_in_web j"
      using j1 by (simp_all add: j2_def)
    have "within_bound M j2 (open_and_fetch env j2 (w\<lparr>status_csv := snd claimed\<rparr>))"
      using assms j2 by (intro open_and_fetch_progress) simp_all
    then have fetch: "within_bound M j (open_and_fetch env j2 (w\<lparr>status_csv := snd claimed\<rparr>))"
      using j2 by (auto intro: within_bound_from)
    have unfolded: "lookup_and_fetch env j w =
        (if tik_indexes j1 \<noteq> [] \<and> tids = [] then Done j1 w
         else if fst claimed then Done j2 (w\<lparr>status_csv := snd claimed\<rparr>)
         else open_and_fetch env j2 (w\<lparr>status_csv := snd claimed\<rparr>))"
      unfolding lookup_and_fetch_def Let_def j2_def claimed_def
      using \<open>get_indexes_from_status (status_csv w) j = Some j1\<close> Some
      by simp
    show ?thesis
      unfolding unfolded using j1 j2 assms(3) fetch by simp
  qed
qed

lemma download_progress:
  assumes "\<forall>t. \<forall>p\<in>set (site env t). web_count p \<le> M" "0 \<le> M" "docs_in_web j \<le> M"
  shows "within_bound M j (download_docs_and_get_data env j w)"
proof (cases "start_idx j > 0")
  case False
  with lookup_and_fetch_progress [OF assms, of w] show ?thesis
    by (simp add: download_docs_and_get_data_def)
next
  case True
  show ?thesis
  proof (cases "resume_block env j w")
    case (Raised f j' w')
    with resume_block_progress [OF assms, of w] True show ?thesis
      by (simp add: download_docs_and_get_data_def)
  next
    case (Done j' w')
    with resume_block_progress [OF assms, of w]
    have j': "docs_in_csv j \<le> docs_in_csv j'" "docs_in_web j' \<le> M" by simp_all
    from lookup_and_fetch_progress [OF assms(1,2) j'(2), of w'] j'(1)
    have "within_bound M j (lookup_and_fetch env j' w')"
      by (auto intro: within_bound_from)
    with Done True show ?thesis by (simp add: download_docs_and_get_data_def)
  qed
qed

text \<open>What the handler of the worker decides, read off \<open>run_iteration\<close>.\<close>

lemma run_iteration_requeued:
  assumes "fst (snd (run_iteration env j w)) = Some j2"
  obtains f j' w' where "download_docs_and_get_data env j w = Raised f j' w'"
    and "fst (run_iteration env j w) = Some f"
    and "j2 = j'\<lparr>start_idx := current_row j'\<rparr>"
    and "docs_in_csv j' < docs_in_web j'"
  using assms
  by (auto simp: run_iteration_def split: outcome.splits option.splits if_splits)

lemma requeue_count_bound:
  assumes "\<forall>t. \<forall>p\<in>set (site env t). web_count p \<le> M" "0 \<le> M"
    and "docs_in_web j \<le> M"
    and "set (attempt_faults env j ws) \<subseteq> {DownloadFault}"
  shows "int (requeue_count env j ws) \<le> max 0 (M - docs_in_csv j)"
  using assms(3,4)
proof (induction ws arbitrary: j)
  case Nil
  then show ?case by simp
next
  case (Cons w ws)
  show ?case
  proof (cases "fst (snd (run_iteration env j w))")
    case None
    then show ?thesis by simp
  next
    case (Some j2)
    then obtain f j' w' where
      raised: "download_docs_and_get_data env j w = Raised f j' w'"
      and f: "fst (run_iteration env j w) = Some f"
      and j2: "j2 = j'\<lparr>start_idx := current_row j'\<rparr>"
      and less: "docs_in_csv j' < docs_in_web j'"
      by (rule run_iteration_requeued)
    from Cons.prems(2) Some f have "f = DownloadFault"
      and rest: "set (attempt_faults env j2 ws) \<subseteq> {DownloadFault}"
      by simp_all
    with download_progress [OF assms(1,2) Cons.prems(1), of w] raised
    have grow: "docs_in_csv j + 1 \<le> docs_in_csv j'" and web: "docs_in_web j' \<le> M"
      by simp_all
    have "int (requeue_count env j2 ws) \<le> max 0 (M - docs_in_csv j2)"
      using web rest by (intro Cons.IH) (simp_all add: j2)
    with grow web less Some show ?thesis by (simp add: j2)
  qed
qed

section \<open>The retry bound\<close>

lemma ex_fresh_job_eq:
  "ex_fresh_job =
     \<lparr>ktatrova = ''1'', gush = ''100'', chelka = ''5'', status_index = 0,
      status_key = ''1_100_5_T1'', no_results = [], tik_id = ''T1'', tik_ids = [],
      tik_indexes = [], res_csv = CsvDocHolder_init, res_dir = ''output/1/T1'',
      res_csv_path = ''output/1/T1/log__TatRova1_T1.csv'',
      multiple_gush_chelka = [], address = [], docs_in_web = 0, docs_in_csv = 0,
      docs_in_directory = 0, current_page = 0, current_row = 0, start_idx = 0\<rparr>"
  by (simp add: ex_fresh_job_def update_fields_def Let_def GushChelka_init_def make_key_def
        RESULTS_DIR_def os_path_join_def ex_row_ledger_def CsvTikHolder_init_def FILE_PREFIX_def)

lemmas ex_eval =
  download_docs_and_get_data_def lookup_and_fetch_def open_and_fetch_def fetch_case_def
  resume_block_def save_and_update_def run_iteration_def
  get_indexes_from_status_def make_key_def
  ex_world_fresh_def ex_row_ledger_def CsvTikHolder_init_def uncompleted_tik_ids_def
  COMPLETED_def MISMATCH_def NO_RESULTS_def Let_def update_fields_def RESULTS_DIR_def
  os_path_join_def FILE_PREFIX_def
  claim_check_def is_active_def launch_and_accept_policy_def ex_env_def
  put_tiks_in_queue_def py_slice_from_def search_no_results_message_def
  handle_table_head_def handle_table_row_def ex_doc_row_def ex_page_def
  PDFBTN_def py_set_def py_index_def str_small os_path_exists_def th_rows_def
  columns_cover_def th_row_def CsvTikHolder_to_csv_def
  update_status_csv_def res_csv_to_csv_def filtered_dir_docs_of_def glob_dir_def
  in_dir_star_dot_star_def docs_in_dir_not_in_csv_of_def docs_in_csv_not_in_dir_of_def
  duplicated_tiks_def update_status_row_def CsvDocHolder_add_def create_record_def
  CsvDocHolder_init_def handle_table.simps

text \<open>
  The example: the first attempt records the first document and its download
  raises, the job is put back once; the second attempt records the second
  document, its download raises too, and the job is dropped with the status
  \<^verbatim>\<open>mismatch\<close>.
\<close>

lemma ex_first_iteration:
  "(case run_iteration ex_env ex_fresh_job ex_world_fresh of
      (fo, jo, w') \<Rightarrow>
        fo = Some DownloadFault
      \<and> map_option (\<lambda>j'. (docs_in_csv j', docs_in_web j', start_idx j')) jo = Some (1, 2, 1)
      \<and> th_row (status_csv w') 0
          = [''1'', ''100'', ''5'', ''T1'', ''mismatch'', [], ''1'', ''0'', ''2'', ''1'', ''0''])"
  unfolding ex_fresh_job_eq
  by (simp add: ex_eval)

lemma ex_two_attempts:
  "requeue_count ex_env ex_fresh_job
     [ex_world_fresh, snd (snd (run_iteration ex_env ex_fresh_job ex_world_fresh))] = 1
   \<and> attempt_faults ex_env ex_fresh_job
     [ex_world_fresh, snd (snd (run_iteration ex_env ex_fresh_job ex_world_fresh))]
       = [DownloadFault, DownloadFault]"
  unfolding ex_fresh_job_eq
  by (simp add: ex_eval)

text \<open>
  Claim C2.  A job that returns is not put back.  After a fault (and the status
  update of the handler) the worker puts the same job back at the tail of the
  queue, with \<^verbatim>\<open>start_idx = current_row\<close>, exactly when
  \<^verbatim>\<open>docs_in_csv < docs_in_web\<close>; otherwise the job leaves the queue and the ledger
  is the one the handler's \<^verbatim>\<open>update_status_csv\<close> produced.  If the pages of the
  source declare at most \<open>D\<close> documents and every attempt of a job ends in a
  fault of a download, the job is put back at most \<open>D\<close> times, whatever
  states \<open>ws\<close> of the shared ledger its attempts start in.
\<close>

theorem retry_bound:
  "(download_docs_and_get_data env j w = Done j' w'
      \<longrightarrow> fst (snd (run_iteration env j w)) = None)
   \<and> (download_docs_and_get_data env j w = Raised f j' w'
        \<and> update_status_csv j' (res_csv_to_csv j' w') = Some wu
      \<longrightarrow> run_iteration env j w =
            (Some f,
             if docs_in_csv j' < docs_in_web j'
             then Some (j'\<lparr>start_idx := current_row j'\<rparr>) else None,
             if docs_in_csv j' < docs_in_web j'
             then wu\<lparr>queue := queue wu @ [j'\<lparr>start_idx := current_row j'\<rparr>]\<rparr> else wu))
   \<and> ((\<forall>t. \<forall>p\<in>set (site env t). web_count p \<le> D) \<and> 0 \<le> docs_in_csv j
        \<and> docs_in_web j \<le> D \<and> set (attempt_faults env j ws) \<subseteq> {DownloadFault}
      \<longrightarrow> int (requeue_count env j ws) \<le> max 0 D)"
proof -
  have a: "download_docs_and_get_data env j w = Done j' w'
             \<longrightarrow> fst (snd (run_iteration env j w)) = None"
    by (simp add: run_iteration_def)
  have b: "download_docs_and_get_data env j w = Raised f j' w'
        \<and> update_status_csv j' (res_csv_to_csv j' w') = Some wu
      \<longrightarrow> run_iteration env j w =
            (Some f,
             if docs_in_csv j' < docs_in_web j'
             then Some (j'\<lparr>start_idx := current_row j'\<rparr>) else None,
             if docs_in_csv j' < docs_in_web j'
             then wu\<lparr>queue := queue wu @ [j'\<lparr>start_idx := current_row j'\<rparr>]\<rparr> else wu)"
    by (simp add: run_iteration_def)
  have c: "int (requeue_count env j ws) \<le> max 0 D"
    if h: "\<forall>t. \<forall>p\<in>set (site env t). web_count p \<le> D" "0 \<le> docs_in_csv j"
      "docs_in_web j \<le> D" "set (attempt_faults env j ws) \<subseteq> {DownloadFault}"
  proof -
    have "\<forall>t. \<forall>p\<in>set (site env t). web_count p \<le> max 0 D"
      using h(1) by fastforce
    moreover have "docs_in_web j \<le> max 0 D" using h(3) by simp
    ultimately have "int (requeue_count env j ws) \<le> max 0 (max 0 D - docs_in_csv j)"
      using h(4) by (intro requeue_count_bound) simp_all
    with h(2) show ?thesis by simp
  qed
  from a b c show ?thesis by blast
qed

theorem retry_bound_witness:
  "0 \<le> docs_in_csv ex_fresh_job \<and> docs_in_web ex_fresh_job \<le> 2
   \<and> attempt_faults ex_env ex_fresh_job
        [ex_world_fresh, snd (snd (run_iteration ex_env ex_fresh_job ex_world_fresh))]
        = [DownloadFault, DownloadFault]
   \<and> requeue_count ex_env ex_fresh_job
        [ex_world_fresh, snd (snd (run_iteration ex_env ex_fresh_job ex_world_fresh))] = 1
   \<and> int (requeue_count ex_env ex_fresh_job
        [ex_world_fresh, snd (snd (run_iteration ex_env ex_fresh_job ex_world_fresh))]) \<le> max 0 2"
proof -
  have pages: "\<forall>t. \<forall>p\<in>set (site ex_env t). web_count p \<le> 2"
    by (simp add: ex_env_def ex_page_def)
  have fresh: "0 \<le> docs_in_csv ex_fresh_job" "docs_in_web ex_fresh_job \<le> 2"
    by (simp_all add: ex_fresh_job_fields)
  have faults: "set (attempt_faults ex_env ex_fresh_job
        [ex_world_fresh, snd (snd (run_iteration ex_env ex_fresh_job ex_world_fresh))])
        \<subseteq> {DownloadFault}"
    using ex_two_attempts by simp
  have "int (requeue_count ex_env ex_fresh_job
        [ex_world_fresh, snd (snd (run_iteration ex_env ex_fresh_job ex_world_fresh))]) \<le> max 0 2"
    using retry_bound [where env = ex_env and j = ex_fresh_job and D = 2 and w = ex_world_fresh
        and j' = ex_fresh_job and w' = ex_world_fresh and wu = ex_world_fresh
        and f = DownloadFault
        and ws = "[ex_world_fresh, snd (snd (run_iteration ex_env ex_fresh_job ex_world_fresh))]"]
      pages fresh faults
    by blast
  with fresh ex_two_attempts show ?thesis by blast
qed

end
